theory Spec2Isabelle
  imports Main "HOL-Library.Sublist"
begin

section \<open>JavaScript strings and values\<close>

text \<open>
  A JavaScript string is modelled as a \<open>string\<close>; one \<open>char\<close> stands for one UTF-16 code
  unit below 256. A value that is either a string or \<open>undefined\<close> (the result of an input box
  that may be cancelled, a configuration key or an environment variable that may be unset) is a
  \<open>string option\<close>, with \<open>None\<close> for \<open>undefined\<close>.
\<close>

definition lowerAZ :: string where
  "lowerAZ = ''abcdefghijklmnopqrstuvwxyz''"

definition upperAZ :: string where
  "upperAZ = ''ABCDEFGHIJKLMNOPQRSTUVWXYZ''"

definition digits09 :: string where
  "digits09 = ''0123456789''"

text \<open>The character class \<open>[a-zA-Z0-9]\<close> of the regular expressions.\<close>

definition isAlnum :: "char \<Rightarrow> bool" where
  "isAlnum c = (c \<in> set lowerAZ \<or> c \<in> set upperAZ \<or> c \<in> set digits09)"

text \<open>
  \<open>String.prototype.toUpperCase\<close>, on the characters the program applies it to: the letters
  \<open>a-z\<close> go to \<open>A-Z\<close>, digits and the underscore stay. (Every call in the program receives a
  string over \<open>[A-Za-z0-9_]\<close>, see \<open>replaceNonAlnum\<close> and \<open>jsSplit\<close>.)
\<close>

definition toUpperCaseChar :: "char \<Rightarrow> char" where
  "toUpperCaseChar c = (case map_of (zip lowerAZ upperAZ) c of Some u \<Rightarrow> u | None \<Rightarrow> c)"

definition toUpperCase :: "string \<Rightarrow> string" where
  "toUpperCase s = map toUpperCaseChar s"

text \<open>\<open>WhiteSpace\<close> and \<open>LineTerminator\<close> code units below 256: what \<open>trim\<close> strips and \<open>\s\<close> matches.\<close>

definition isSpace :: "char \<Rightarrow> bool" where
  "isSpace c = (of_char c \<in> {9, 10, 11, 12, 13, 32, 160 :: nat})"

definition nl :: string where
  "nl = [CHR 0x0A]"

definition dq :: string where
  "dq = [CHR 0x22]"

text \<open>Truthiness of a string-or-undefined value, the operator \<open>||\<close>, and \<open>${v}\<close> in a template.\<close>

definition truthy :: "string option \<Rightarrow> bool" where
  "truthy v = (case v of None \<Rightarrow> False | Some s \<Rightarrow> s \<noteq> [])"

definition js_or :: "string option \<Rightarrow> string option \<Rightarrow> string option" where
  "js_or a b = (if truthy a then a else b)"

definition str :: "string option \<Rightarrow> string" where
  "str v = (case v of None \<Rightarrow> ''undefined'' | Some s \<Rightarrow> s)"

text \<open>\<open>Array.prototype.join\<close>.\<close>

fun join :: "string \<Rightarrow> string list \<Rightarrow> string" where
  "join sep [] = []"
| "join sep [x] = x"
| "join sep (x # y # ys) = x @ sep @ join sep (y # ys)"

section \<open>Comment block\<close>

definition border46 :: string where
  "border46 = ''==============================================''"

definition border45 :: string where
  "border45 = ''=============================================''"

text \<open>The array \<open>inner\<close> of \<open>makeCommentBlock\<close> (the variant with styles).\<close>

definition innerLines :: "string \<Rightarrow> string option \<Rightarrow> string option \<Rightarrow> string option \<Rightarrow> string list" where
  "innerLines filename description author date =
     [border46] @ [''                '' @ filename]
     @ (if truthy description then ['' '' @ str description] else [])
     @ (if truthy author then ['' Author: '' @ str author] else [])
     @ (if truthy date then ['' Date: '' @ str date] else [])
     @ [border45]"

function makeCommentBlock ::
  "string \<Rightarrow> string option \<Rightarrow> string option \<Rightarrow> string option \<Rightarrow> string \<Rightarrow> string" where
  "makeCommentBlock filename description author date style =
     (let inner = innerLines filename description author date in
      if style = ''block'' then
        (let lines = [''/**'' @ inner ! 0]
               @ map (\<lambda>i. '' * '' @ inner ! i) [1 ..< length inner - 1]
               @ ['' *'' @ inner ! (length inner - 1) @ ''**/'']
         in join nl lines @ nl @ nl)
      else if style = ''hash'' \<or> style = ''cpp'' then
        (let pre = (if style = ''hash'' then ''# '' else ''// '');
             lines = map (\<lambda>l. pre @ l) inner
         in join nl lines @ nl @ nl)
      else makeCommentBlock filename description author date ''block'')"
  by pat_completeness auto
termination
  by (relation "measure (\<lambda>(f, d, a, dt, s). if s = ''block'' then 0 else 1)") auto

declare makeCommentBlock.simps [simp del]

text \<open>\<open>makeCommentBlock\<close> of \<open>src/extension.js\<close>: no style, the block form only.\<close>

definition legacy_makeCommentBlock ::
  "string \<Rightarrow> string option \<Rightarrow> string option \<Rightarrow> string option \<Rightarrow> string" where
  "legacy_makeCommentBlock filename description author date =
     (let lines = [''/**'' @ border46] @ ['' *                '' @ filename]
            @ (if truthy description then ['' *  '' @ str description] else [])
            @ (if truthy author then ['' *  Author: '' @ str author] else [])
            @ (if truthy date then ['' *  Date: '' @ str date] else [])
            @ ['' *'' @ border45 @ ''**/'']
      in join nl lines @ nl @ nl)"

section \<open>Guard macro and class name\<close>

text \<open>\<open>s.replace(/[^a-zA-Z0-9]/g, '_')\<close>: every match, left to right, is one character.\<close>

primrec replaceNonAlnum :: "string \<Rightarrow> string" where
  "replaceNonAlnum [] = []"
| "replaceNonAlnum (c # cs) = (if isAlnum c then c else CHR ''_'') # replaceNonAlnum cs"

definition makeGuardMacro :: "string \<Rightarrow> string \<Rightarrow> string" where
  "makeGuardMacro basename ext =
     (let raw = toUpperCase (replaceNonAlnum (basename @ ''_'' @ ext)) in raw @ ''_'')"

text \<open>
  \<open>s.split(/[^a-zA-Z0-9]+/)\<close>: a match is a maximal run of separator characters; the piece
  before it is emitted even when empty (a separator at the start), and the piece after the last
  match is emitted even when empty (a separator at the end, or the empty string).
  \<open>cur\<close> is the piece read so far.
\<close>

function jsSplitFrom :: "string \<Rightarrow> string \<Rightarrow> string list" where
  "jsSplitFrom cur [] = [cur]"
| "jsSplitFrom cur (c # cs) =
     (if isAlnum c then jsSplitFrom (cur @ [c]) cs
      else cur # jsSplitFrom [] (dropWhile (\<lambda>x. \<not> isAlnum x) cs))"
  by pat_completeness auto
termination
  by (relation "measure (\<lambda>(cur, s). length s)") (auto simp: le_imp_less_Suc length_dropWhile_le)

definition jsSplit :: "string \<Rightarrow> string list" where
  "jsSplit s = jsSplitFrom [] s"

definition toClassName :: "string \<Rightarrow> string" where
  "toClassName basename =
     concat (map (\<lambda>s. toUpperCase (take 1 s) @ drop 1 s)
                 (filter (\<lambda>s. s \<noteq> []) (jsSplit basename)))"

text \<open>
  The words of the specification, for comparison: the segments are the non-empty maximal runs of
  alphanumeric characters, and each has its first character upper-cased.
\<close>

function alnumRuns :: "string \<Rightarrow> string list" where
  "alnumRuns s =
     (case dropWhile (\<lambda>x. \<not> isAlnum x) s of
        [] \<Rightarrow> []
      | c # cs \<Rightarrow> takeWhile isAlnum (c # cs) # alnumRuns (dropWhile isAlnum cs))"
  by pat_completeness auto
termination
proof (relation "measure length", goal_cases)
  case 1
  show ?case by simp
next
  case (2 s c cs)
  have "length (dropWhile isAlnum cs) \<le> length cs"
    by (rule length_dropWhile_le)
  moreover have "length (c # cs) \<le> length s"
    using length_dropWhile_le [of "\<lambda>x. \<not> isAlnum x" s] 2 by simp
  ultimately show ?case by simp
qed

declare alnumRuns.simps [simp del]

definition capitalize :: "string \<Rightarrow> string" where
  "capitalize s = (case s of [] \<Rightarrow> [] | c # cs \<Rightarrow> toUpperCaseChar c # cs)"

text \<open>
  The same sentence for \<open>makeGuardMacro\<close>: one output character per input character, an
  underscore for every character outside \<open>[A-Za-z0-9]\<close>, the upper-case form otherwise.
\<close>

definition guardChar :: "char \<Rightarrow> char" where
  "guardChar c = (if isAlnum c then toUpperCaseChar c else CHR ''_'')"

text \<open>
  And for the comment block: a field whose value is empty or undefined contributes no line, any
  other value contributes one line; \<open>frame\<close> puts the style's border and prefixes around the
  lines of the body.
\<close>

definition field :: "string \<Rightarrow> string option \<Rightarrow> string list" where
  "field label v = (case v of Some (c # cs) \<Rightarrow> [label @ c # cs] | _ \<Rightarrow> [])"

definition frame :: "string \<Rightarrow> string list \<Rightarrow> string list" where
  "frame sty body =
     (if sty = ''hash'' then map (\<lambda>l. ''# '' @ l) ([border46] @ body @ [border45])
      else if sty = ''cpp'' then map (\<lambda>l. ''// '' @ l) ([border46] @ body @ [border45])
      else [''/**'' @ border46] @ map (\<lambda>l. '' * '' @ l) body @ ['' *'' @ border45 @ ''**/''])"

section \<open>Existing-header detection\<close>

text \<open>\<open>text.split('\n')\<close>; \<open>cur\<close> is the line read so far. The empty string gives one empty line.\<close>

fun splitLinesFrom :: "string \<Rightarrow> string \<Rightarrow> string list" where
  "splitLinesFrom cur [] = [cur]"
| "splitLinesFrom cur (c # cs) =
     (if c = CHR 0x0A then cur # splitLinesFrom [] cs else splitLinesFrom (cur @ [c]) cs)"

definition splitLines :: "string \<Rightarrow> string list" where
  "splitLines s = splitLinesFrom [] s"

text \<open>\<open>String.prototype.trim\<close>.\<close>

definition trim :: "string \<Rightarrow> string" where
  "trim s = rev (dropWhile isSpace (rev (dropWhile isSpace s)))"

text \<open>
  An unanchored regular expression is tried at every start position, left to right.
  \<open>hashBorderAt\<close> is a match of \<open>#+\s*={3,}\<close> at the first character: the three classes are
  disjoint, so the greedy match is the only one. \<open>lineHashBorderAt\<close> is a match of
  \<open>#\s*={3,}\<close> at the first character, and with the flag \<open>m\<close> the anchor \<open>^\<close> holds at the
  start of the input and after every line terminator.
\<close>

primrec anywhere :: "(string \<Rightarrow> bool) \<Rightarrow> string \<Rightarrow> bool" where
  "anywhere P [] = P []"
| "anywhere P (c # cs) = (P (c # cs) \<or> anywhere P cs)"

definition hashBorderAt :: "string \<Rightarrow> bool" where
  "hashBorderAt s =
     (case s of
        [] \<Rightarrow> False
      | c # cs \<Rightarrow> c = CHR ''#''
          \<and> prefix ''==='' (dropWhile isSpace (dropWhile (\<lambda>x. x = CHR ''#'') cs)))"

definition lineHashBorderAt :: "string \<Rightarrow> bool" where
  "lineHashBorderAt s =
     (case s of
        [] \<Rightarrow> False
      | c # cs \<Rightarrow> c = CHR ''#'' \<and> prefix ''==='' (dropWhile isSpace cs))"

definition isLineTerminator :: "char \<Rightarrow> bool" where
  "isLineTerminator c = (c = CHR 0x0A \<or> c = CHR 0x0D)"

primrec afterLineTerminator :: "(string \<Rightarrow> bool) \<Rightarrow> string \<Rightarrow> bool" where
  "afterLineTerminator P [] = False"
| "afterLineTerminator P (c # cs) = ((isLineTerminator c \<and> P cs) \<or> afterLineTerminator P cs)"

definition atLineStart :: "(string \<Rightarrow> bool) \<Rightarrow> string \<Rightarrow> bool" where
  "atLineStart P s = (P s \<or> afterLineTerminator P s)"

text \<open>
  \<open>hasHeaderAtTop\<close>. \<open>/\/\*\*/.test\<close> and \<open>/={3,}/.test\<close> are substring tests. The shebang
  branch returns only when one of its two tests holds and falls through otherwise.
\<close>

definition hasHeaderAtTop :: "string \<Rightarrow> bool" where
  "hasHeaderAtTop text =
     (if text = [] then False
      else
        (let head = join nl (take 8 (splitLines text)) in
         if sublist ''/**'' head then True
         else if prefix ''#!'' (trim head)
               \<and> (let rest = join nl (take 10 (splitLines text))
                  in sublist ''==='' rest \<or> anywhere hashBorderAt rest) then True
         else if sublist ''==='' head then True
         else if atLineStart lineHashBorderAt head then True
         else False))"

section \<open>Style detection and per-extension content\<close>

text \<open>
  \<open>toLowerCase\<close>, as far as the comparison with \<open>'makefile'\<close> can tell: below 256 only
  \<open>A-Z\<close> are lowered to an ASCII letter.
\<close>

definition toLowerCaseChar :: "char \<Rightarrow> char" where
  "toLowerCaseChar c = (case map_of (zip upperAZ lowerAZ) c of Some l \<Rightarrow> l | None \<Rightarrow> c)"

definition toLowerCase :: "string \<Rightarrow> string" where
  "toLowerCase s = map toLowerCaseChar s"

record detected =
  style :: string
  shebang :: bool

definition detectStyle :: "string \<Rightarrow> string \<Rightarrow> detected" where
  "detectStyle extNoDot basenameWithExt =
     (let b = toLowerCase basenameWithExt in
      if extNoDot = ''py'' then \<lparr>style = ''hash'', shebang = True\<rparr>
      else if extNoDot = [] \<and> b = ''makefile'' then \<lparr>style = ''hash'', shebang = False\<rparr>
      else \<lparr>style = ''block'', shebang = False\<rparr>)"

text \<open>The template of the include guard of a \<open>.h\<close> file.\<close>

definition guardBlock :: "string \<Rightarrow> string" where
  "guardBlock guardMacro =
     ''#ifndef '' @ guardMacro @ nl @ ''#define '' @ guardMacro @ nl @ nl @ nl
     @ ''#endif /* !'' @ guardMacro @ '' */'' @ nl"

text \<open>The array \<open>classBlock\<close> and the guarded class skeleton of a \<open>.hpp\<close> file.\<close>

definition classBlock :: "string \<Rightarrow> string list" where
  "classBlock className =
     [''class '' @ className @ '' {'',
      ''    public:'',
      ''        '' @ className @ ''();'',
      ''        ~'' @ className @ ''();'',
      [],
      ''    protected:'',
      ''    private:'',
      ''};'']"

definition guardedClass :: "string \<Rightarrow> string \<Rightarrow> string" where
  "guardedClass guardMacro className =
     ''#ifndef '' @ guardMacro @ nl @ ''#define '' @ guardMacro @ nl @ nl
     @ join nl (classBlock className) @ nl @ nl @ ''#endif /* !'' @ guardMacro @ '' */'' @ nl"

text \<open>The array \<open>impl\<close> of a \<open>.cpp\<close> file, joined.\<close>

definition implBlock :: "string \<Rightarrow> string" where
  "implBlock base =
     (let className = toClassName base;
          headerFile = base @ ''.hpp'';
          impl = [''#include '' @ dq @ headerFile @ dq @ nl,
                  className @ ''::'' @ className @ ''()'',
                  ''{'',
                  ''}'',
                  [],
                  className @ ''::~'' @ className @ ''()'',
                  ''{'',
                  ''}'',
                  []]
      in join nl impl)"

definition shebangLine :: string where
  "shebangLine = ''#!/usr/bin/env python3'' @ nl"

section \<open>The editor, the user and the entry points\<close>

text \<open>
  A document as the entry points see it. The three path components are what Node's \<open>path\<close>
  module returns for the document's file name and are taken as given:
  \<open>fileExt\<close> is \<open>path.extname(filePath).toLowerCase()\<close> (with its dot),
  \<open>basenameWithExt\<close> is \<open>path.basename(filePath)\<close> and \<open>basename\<close> is
  \<open>path.basename(filePath, ext)\<close>.
\<close>

record document =
  fileExt :: string
  basenameWithExt :: string
  basename :: string
  getText :: string

text \<open>
  Everything else an invocation reads: the stored setting \<open>defaultAuthor\<close>, the two environment
  variables, the value of \<open>formatDate(new Date())\<close>, what each input box resolves to
  (\<open>None\<close> when the user cancels it), and whether \<open>config.update\<close> throws.
\<close>

record host =
  defaultAuthor :: "string option"
  GIT_AUTHOR_NAME :: "string option"
  USER :: "string option"
  today :: string
  authorBox :: "string option"
  descriptionBox :: "string option"
  guardBox :: "string option"
  updateThrows :: bool

text \<open>
  What an invocation does to the outside, in order: input boxes (prompt and pre-filled value),
  messages, the insertion at \<open>Position(0, 0)\<close>, the call of \<open>config.update\<close>, and
  \<open>console.error\<close>. The host applies every insertion it is given.
\<close>

datatype event =
    InputBox string string
  | InformationMessage string
  | WarningMessage string
  | Insert string
  | ConfigUpdate string
  | ConsoleError string

record outcome =
  events :: "event list"
  textAfter :: "string option"
  configAfter :: "string option"

text \<open>\<open>ext.startsWith('.') ? ext.slice(1) : ext\<close>\<close>

definition extNoDot :: "string \<Rightarrow> string" where
  "extNoDot ext = (case ext of [] \<Rightarrow> [] | c # cs \<Rightarrow> if c = CHR ''.'' then cs else ext)"

text \<open>\<open>config.get('defaultAuthor') || process.env.GIT_AUTHOR_NAME || process.env.USER || ''\<close>\<close>

definition savedAuthorOf :: "host \<Rightarrow> string" where
  "savedAuthorOf h =
     str (js_or (js_or (js_or (defaultAuthor h) (GIT_AUTHOR_NAME h)) (USER h)) (Some []))"

text \<open>
  The last step of the interactive entry points: \<open>config.update\<close> is called when the author box
  gave a non-empty string other than the stored one; when the call throws, the error is logged
  and the setting keeps its value. The result is the events and the setting afterwards.
\<close>

definition persistAuthor :: "host \<Rightarrow> event list \<times> string option" where
  "persistAuthor h =
     (let authorInput = authorBox h in
      if truthy authorInput \<and> authorInput \<noteq> defaultAuthor h then
        (if updateThrows h
         then ([ConfigUpdate (str authorInput),
                ConsoleError ''proheader: failed to save defaultAuthor config''], defaultAuthor h)
         else ([ConfigUpdate (str authorInput)], authorInput))
      else ([], defaultAuthor h))"

text \<open>\<open>insertHeader\<close>, the command, in the variant with styles.\<close>

definition insertHeader :: "host \<Rightarrow> document option \<Rightarrow> outcome" where
  "insertHeader h editor =
     (case editor of
        None \<Rightarrow>
          \<lparr>events = [WarningMessage ''No active editor - open a file to insert a header.''],
           textAfter = None, configAfter = defaultAuthor h\<rparr>
      | Some doc \<Rightarrow>
          (let ext = extNoDot (fileExt doc);
               savedAuthor = savedAuthorOf h;
               authorInput = authorBox h;
               author = js_or authorInput (Some savedAuthor);
               description = descriptionBox h;
               asked = [InputBox ''Author (github)'' savedAuthor,
                        InputBox ''Short description (shown under filename)'' []];
               det = detectStyle ext (basenameWithExt doc);
               comment = makeCommentBlock (basenameWithExt doc) description author
                           (Some (today h)) (style det);
               (asked2, toInsert) =
                 (if ext = ''c'' then (asked, comment)
                  else if ext = ''h'' then
                    (let defaultMacro = makeGuardMacro (basename doc) ''H'';
                         guardMacro = str (js_or (guardBox h) (Some defaultMacro))
                     in (asked @ [InputBox ''Include guard macro'' defaultMacro],
                         comment @ guardBlock guardMacro))
                  else if ext = ''hpp'' then
                    (let defaultMacro = makeGuardMacro (basename doc) ''HPP'';
                         guardMacro = str (js_or (guardBox h) (Some defaultMacro));
                         className = toClassName (basename doc)
                     in (asked @ [InputBox ''Include guard macro'' defaultMacro],
                         comment @ guardedClass guardMacro className))
                  else if ext = ''cpp'' then (asked, comment @ implBlock (basename doc))
                  else (asked, comment));
               toInsert2 = (if shebang det then shebangLine @ toInsert else toInsert);
               existing = getText doc
           in if hasHeaderAtTop existing then
                \<lparr>events = asked2 @ [InformationMessage ''A header already exists in this file.''],
                 textAfter = Some existing, configAfter = defaultAuthor h\<rparr>
              else
                (let (saved, cfg) = persistAuthor h
                 in \<lparr>events = asked2 @ [Insert toInsert2] @ saved
                               @ [InformationMessage ''Pro header inserted.''],
                     textAfter = Some (toInsert2 @ existing), configAfter = cfg\<rparr>)))"

text \<open>
  The additions of the two entry points for created files: the default macro, no input box.
\<close>

definition createdContent :: "string \<Rightarrow> string \<Rightarrow> string" where
  "createdContent ext base =
     (if ext = ''h'' then guardBlock (makeGuardMacro base ''H'')
      else if ext = ''hpp'' then guardedClass (makeGuardMacro base ''HPP'') (toClassName base)
      else if ext = ''cpp'' then implBlock base
      else [])"

text \<open>\<open>autoInsertHeaderForDocument\<close>: no input box, empty files only.\<close>

definition autoInsertHeaderForDocument :: "host \<Rightarrow> document option \<Rightarrow> outcome" where
  "autoInsertHeaderForDocument h d =
     (case d of
        None \<Rightarrow> \<lparr>events = [], textAfter = None, configAfter = defaultAuthor h\<rparr>
      | Some doc \<Rightarrow>
          (let text = getText doc in
           if trim text \<noteq> [] then
             (if hasHeaderAtTop text
              then \<lparr>events = [], textAfter = Some text, configAfter = defaultAuthor h\<rparr>
              else \<lparr>events = [], textAfter = Some text, configAfter = defaultAuthor h\<rparr>)
           else
             (let ext = extNoDot (fileExt doc);
                  author = savedAuthorOf h;
                  description = [];
                  det = detectStyle ext (basenameWithExt doc);
                  toInsert = makeCommentBlock (basenameWithExt doc) (Some description)
                               (Some author) (Some (today h)) (style det)
                             @ createdContent ext (basename doc);
                  toInsert2 = (if shebang det then shebangLine @ toInsert else toInsert)
              in \<lparr>events = [Insert toInsert2], textAfter = Some (toInsert2 @ text),
                  configAfter = defaultAuthor h\<rparr>)))"

text \<open>\<open>interactiveInsertForCreatedDocument\<close>: the handler of the file-creation event.\<close>

definition interactiveInsertForCreatedDocument :: "host \<Rightarrow> document option \<Rightarrow> outcome" where
  "interactiveInsertForCreatedDocument h d =
     (case d of
        None \<Rightarrow> \<lparr>events = [], textAfter = None, configAfter = defaultAuthor h\<rparr>
      | Some doc \<Rightarrow>
          (let text = getText doc in
           if trim text \<noteq> [] then
             (if hasHeaderAtTop text
              then \<lparr>events = [], textAfter = Some text, configAfter = defaultAuthor h\<rparr>
              else \<lparr>events = [], textAfter = Some text, configAfter = defaultAuthor h\<rparr>)
           else
             (let ext = extNoDot (fileExt doc);
                  savedAuthor = savedAuthorOf h;
                  authorInput = authorBox h;
                  author = js_or authorInput (Some savedAuthor);
                  description = descriptionBox h;
                  asked = [InputBox ''Author (github)'' savedAuthor,
                           InputBox ''Short description (shown under filename)'' []];
                  det = detectStyle ext (basenameWithExt doc);
                  toInsert = makeCommentBlock (basenameWithExt doc) (js_or description (Some []))
                               (js_or author (Some savedAuthor)) (Some (today h)) (style det)
                             @ createdContent ext (basename doc);
                  toInsert2 = (if shebang det then shebangLine @ toInsert else toInsert);
                  (saved, cfg) = persistAuthor h
              in \<lparr>events = asked @ [Insert toInsert2] @ saved,
                  textAfter = Some (toInsert2 @ text), configAfter = cfg\<rparr>)))"

text \<open>
  \<open>insertHeader\<close> of \<open>src/extension.js\<close>: no stored setting, no style, no look at the text of
  the document, and any extension other than the four is refused.
\<close>

definition legacy_insertHeader :: "host \<Rightarrow> document option \<Rightarrow> outcome" where
  "legacy_insertHeader h editor =
     (case editor of
        None \<Rightarrow>
          \<lparr>events = [WarningMessage ''No active editor - open a file to insert a header.''],
           textAfter = None, configAfter = defaultAuthor h\<rparr>
      | Some doc \<Rightarrow>
          (let ext = extNoDot (fileExt doc);
               envAuthor = str (js_or (js_or (GIT_AUTHOR_NAME h) (USER h)) (Some []));
               author = authorBox h;
               description = descriptionBox h;
               asked = [InputBox ''Author (github)'' envAuthor,
                        InputBox ''Short description (shown under filename)'' []];
               comment = legacy_makeCommentBlock (basenameWithExt doc) description author
                           (Some (today h));
               (asked2, generated) =
                 (if ext = ''c'' then (asked, Some comment)
                  else if ext = ''h'' then
                    (let defaultMacro = makeGuardMacro (basename doc) ''H'';
                         guardMacro = str (js_or (guardBox h) (Some defaultMacro))
                     in (asked @ [InputBox ''Include guard macro'' defaultMacro],
                         Some (comment @ guardBlock guardMacro)))
                  else if ext = ''hpp'' then
                    (let defaultMacro = makeGuardMacro (basename doc) ''HPP'';
                         guardMacro = str (js_or (guardBox h) (Some defaultMacro));
                         className = toClassName (basename doc)
                     in (asked @ [InputBox ''Include guard macro'' defaultMacro],
                         Some (comment @ guardedClass guardMacro className)))
                  else if ext = ''cpp'' then (asked, Some (comment @ implBlock (basename doc)))
                  else (asked, None))
           in case generated of
                None \<Rightarrow>
                  \<lparr>events = asked2 @ [InformationMessage
                                        (''Extension '' @ ext @ '' is not supported by proHeader.'')],
                   textAfter = Some (getText doc), configAfter = defaultAuthor h\<rparr>
              | Some toInsert \<Rightarrow>
                  \<lparr>events = asked2 @ [Insert toInsert, InformationMessage ''Pro header inserted.''],
                   textAfter = Some (toInsert @ getText doc), configAfter = defaultAuthor h\<rparr>))"

section \<open>Reading an outcome, and the examples of the specification\<close>

text \<open>The generated texts of an invocation: what it inserted, in order.\<close>

fun insertedTexts :: "event list \<Rightarrow> string list" where
  "insertedTexts [] = []"
| "insertedTexts (Insert t # es) = t # insertedTexts es"
| "insertedTexts (e # es) = insertedTexts es"

text \<open>The input boxes of an invocation.\<close>

fun isInputBox :: "event \<Rightarrow> bool" where
  "isInputBox (InputBox p v) = True"
| "isInputBox e = False"

text \<open>The guard prompt of \<open>insertHeader\<close>, shown for \<open>h\<close> and \<open>hpp\<close> only.\<close>

definition guardPrompts :: "document \<Rightarrow> event list" where
  "guardPrompts doc =
     (if extNoDot (fileExt doc) = ''h''
        then [InputBox ''Include guard macro'' (makeGuardMacro (basename doc) ''H'')]
      else if extNoDot (fileExt doc) = ''hpp''
        then [InputBox ''Include guard macro'' (makeGuardMacro (basename doc) ''HPP'')]
      else [])"

text \<open>The implementation block of \<open>Game.cpp\<close>, written out.\<close>

definition gameImpl :: string where
  "gameImpl =
     ''#include '' @ dq @ ''Game.hpp'' @ dq @ nl @ nl
     @ ''Game::Game()'' @ nl @ ''{'' @ nl @ ''}'' @ nl @ nl
     @ ''Game::~Game()'' @ nl @ ''{'' @ nl @ ''}'' @ nl"

text \<open>A user who cancels every input box, with nothing stored and an empty environment.\<close>

definition quietHost :: host where
  "quietHost =
     \<lparr>defaultAuthor = None, GIT_AUTHOR_NAME = None, USER = None, today = ''2025-10-22'',
      authorBox = None, descriptionBox = None, guardBox = None, updateThrows = False\<rparr>"

definition gameCpp :: "string \<Rightarrow> document" where
  "gameCpp t = \<lparr>fileExt = ''.cpp'', basenameWithExt = ''Game.cpp'', basename = ''Game'', getText = t\<rparr>"

definition toolPy :: "string \<Rightarrow> document" where
  "toolPy t = \<lparr>fileExt = ''.py'', basenameWithExt = ''tool.py'', basename = ''tool'', getText = t\<rparr>"

definition keyboardC :: "string \<Rightarrow> document" where
  "keyboardC t =
     \<lparr>fileExt = ''.c'', basenameWithExt = ''keyboard.c'', basename = ''keyboard'', getText = t\<rparr>"

text \<open>The calls of \<open>config.update\<close> of an invocation, with the value written.\<close>

fun configUpdates :: "event list \<Rightarrow> string list" where
  "configUpdates [] = []"
| "configUpdates (ConfigUpdate a # es) = a # configUpdates es"
| "configUpdates (e # es) = configUpdates es"

text \<open>The first \<open>n\<close> lines of a text, joined again: \<open>text.split('\n').slice(0, n).join('\n')\<close>.\<close>

definition firstLines :: "nat \<Rightarrow> string \<Rightarrow> string" where
  "firstLines n text = join nl (take n (splitLines text))"

text \<open>
  The text each entry point generates, as a function of what it read: \<open>headerText\<close> for
  \<open>insertHeader\<close>, \<open>createdText\<close> for the two entry points for created files (given the
  description and the author they pass on), \<open>legacyText\<close> for \<open>insertHeader\<close> of
  \<open>src/extension.js\<close>, which generates a text for the \<open>supported\<close> extensions only.
\<close>

definition headerText :: "host \<Rightarrow> document \<Rightarrow> string" where
  "headerText h doc =
     (let ext = extNoDot (fileExt doc);
          det = detectStyle ext (basenameWithExt doc);
          comment = makeCommentBlock (basenameWithExt doc) (descriptionBox h)
                      (js_or (authorBox h) (Some (savedAuthorOf h))) (Some (today h)) (style det);
          body =
            (if ext = ''h'' then
               comment @ guardBlock
                 (str (js_or (guardBox h) (Some (makeGuardMacro (basename doc) ''H''))))
             else if ext = ''hpp'' then
               comment @ guardedClass
                 (str (js_or (guardBox h) (Some (makeGuardMacro (basename doc) ''HPP''))))
                 (toClassName (basename doc))
             else if ext = ''cpp'' then comment @ implBlock (basename doc)
             else comment)
      in if shebang det then shebangLine @ body else body)"

definition createdText :: "host \<Rightarrow> document \<Rightarrow> string option \<Rightarrow> string option \<Rightarrow> string" where
  "createdText h doc description author =
     (let ext = extNoDot (fileExt doc);
          det = detectStyle ext (basenameWithExt doc);
          body = makeCommentBlock (basenameWithExt doc) description author (Some (today h))
                   (style det)
                 @ createdContent ext (basename doc)
      in if shebang det then shebangLine @ body else body)"

definition legacyText :: "host \<Rightarrow> document \<Rightarrow> string" where
  "legacyText h doc =
     (let ext = extNoDot (fileExt doc);
          comment = legacy_makeCommentBlock (basenameWithExt doc) (descriptionBox h) (authorBox h)
                      (Some (today h))
      in if ext = ''h'' then
           comment @ guardBlock
             (str (js_or (guardBox h) (Some (makeGuardMacro (basename doc) ''H''))))
         else if ext = ''hpp'' then
           comment @ guardedClass
             (str (js_or (guardBox h) (Some (makeGuardMacro (basename doc) ''HPP''))))
             (toClassName (basename doc))
         else if ext = ''cpp'' then comment @ implBlock (basename doc)
         else comment)"

definition supported :: "string \<Rightarrow> bool" where
  "supported ext = (ext = ''c'' \<or> ext = ''h'' \<or> ext = ''hpp'' \<or> ext = ''cpp'')"

text \<open>The same host with a user who types a name into the author box.\<close>

definition typingHost :: host where
  "typingHost = quietHost\<lparr>authorBox := Some ''octocat''\<rparr>"

section \<open>Lemmas on characters and strings\<close>

lemma upper_of_lower: "c \<in> set lowerAZ \<Longrightarrow> toUpperCaseChar c \<in> set upperAZ"
proof -
  assume c: "c \<in> set lowerAZ"
  have len: "length lowerAZ = length upperAZ"
    by (simp add: lowerAZ_def upperAZ_def)
  have "\<exists>u. map_of (zip lowerAZ upperAZ) c = Some u"
    by (rule iffD1 [OF map_of_zip_is_Some [OF len] c])
  then obtain u where u: "map_of (zip lowerAZ upperAZ) c = Some u" ..
  then have "u \<in> set upperAZ"
    by (meson map_of_SomeD set_zip_rightD)
  then show ?thesis by (simp add: toUpperCaseChar_def u)
qed

lemma upper_of_other: "c \<notin> set lowerAZ \<Longrightarrow> toUpperCaseChar c = c"
proof -
  assume c: "c \<notin> set lowerAZ"
  have len: "length lowerAZ = length upperAZ"
    by (simp add: lowerAZ_def upperAZ_def)
  have "map_of (zip lowerAZ upperAZ) c = None"
    by (rule iffD2 [OF map_of_zip_is_None [OF len] c])
  then show ?thesis by (simp add: toUpperCaseChar_def)
qed

lemma not_lower: "c \<in> set upperAZ \<union> set digits09 \<Longrightarrow> c \<notin> set lowerAZ"
  by (auto simp: lowerAZ_def upperAZ_def digits09_def)

lemma isAlnum_upper: "isAlnum c \<Longrightarrow> toUpperCaseChar c \<in> set upperAZ \<union> set digits09"
  using upper_of_lower [of c] upper_of_other [of c] not_lower [of c]
  unfolding isAlnum_def by auto

lemma toUpper_underscore: "toUpperCaseChar (CHR ''_'') = CHR ''_''"
  by (simp add: toUpperCaseChar_def lowerAZ_def upperAZ_def)

lemma not_alnum_underscore: "\<not> isAlnum (CHR ''_'')"
  by (simp add: isAlnum_def lowerAZ_def upperAZ_def digits09_def)

lemma sublist_left: "sublist xs ys \<Longrightarrow> sublist xs (zs @ ys)"
  unfolding sublist_def by (metis append_assoc)

lemma sublist_right: "sublist xs ys \<Longrightarrow> sublist xs (ys @ zs)"
  unfolding sublist_def by (metis append_assoc)

lemma join_Cons: "join sep (l # ls) = (if ls = [] then l else l @ sep @ join sep ls)"
  by (cases ls) simp_all

lemma sublist_join: "x \<in> set xs \<Longrightarrow> sublist x (join sep xs)"
proof (induction sep xs rule: join.induct)
  case (3 sep a b ys)
  show ?case
  proof (cases "x = a")
    case True
    then show ?thesis by simp
  next
    case False
    then have "sublist x (join sep (b # ys))" using 3 by simp
    then have "sublist x ((a @ sep) @ join sep (b # ys))" by (rule sublist_left)
    then show ?thesis by simp
  qed
qed simp_all

section \<open>The comment block, line by line\<close>

lemma field_eq: "(if truthy v then [label @ str v] else []) = field label v"
  by (auto simp: truthy_def field_def str_def split: option.splits list.splits)

lemma innerLines_fields:
  "innerLines f d a dt =
     [border46]
     @ ([''                '' @ f] @ field '' '' d @ field '' Author: '' a @ field '' Date: '' dt)
     @ [border45]"
  unfolding innerLines_def field_eq [symmetric] append_assoc by (rule refl)

lemma middle_map:
  "map (\<lambda>i. g (([a] @ body @ [b]) ! i)) [1 ..< length ([a] @ body @ [b]) - 1] = map g body"
proof -
  have "[1 ..< length ([a] @ body @ [b]) - 1] = map Suc [0 ..< length body]"
    by (simp add: map_Suc_upt del: upt_Suc)
  then have "map (\<lambda>i. g (([a] @ body @ [b]) ! i)) [1 ..< length ([a] @ body @ [b]) - 1]
      = map (\<lambda>i. g (([a] @ body @ [b]) ! Suc i)) [0 ..< length body]"
    by (simp only: map_map o_def)
  also have "\<dots> = map (\<lambda>i. g (body ! i)) [0 ..< length body]"
    by (rule map_cong) (simp_all add: nth_append)
  also have "\<dots> = map g (map (nth body) [0 ..< length body])"
    by (simp only: map_map o_def)
  also have "\<dots> = map g body"
    by (simp only: map_nth)
  finally show ?thesis .
qed

lemma border46_replicate: "border46 = replicate 46 (CHR ''='')"
  by code_simp

lemma border45_replicate: "border45 = replicate 45 (CHR ''='')"
  by code_simp

lemma block_lines:
  "makeCommentBlock f d a dt ''block'' =
     join nl ([''/**'' @ border46]
              @ map (\<lambda>l. '' * '' @ l)
                  ([''                '' @ f] @ field '' '' d @ field '' Author: '' a
                   @ field '' Date: '' dt)
              @ ['' *'' @ border45 @ ''**/'']) @ nl @ nl"
proof -
  let ?body = "[''                '' @ f] @ field '' '' d @ field '' Author: '' a
               @ field '' Date: '' dt"
  let ?inner = "innerLines f d a dt"
  have i: "?inner = [border46] @ ?body @ [border45]"
    by (rule innerLines_fields)
  have m: "map (\<lambda>i. '' * '' @ ?inner ! i) [1 ..< length ?inner - 1] = map (\<lambda>l. '' * '' @ l) ?body"
    unfolding i by (rule middle_map)
  have h: "?inner ! 0 = border46"
    by (simp add: i)
  have l: "?inner ! (length ?inner - 1) = border45"
    unfolding i by (simp add: nth_append)
  show ?thesis
    apply (subst makeCommentBlock.simps)
    unfolding Let_def m h l
    apply simp
    done
qed

lemma styled_lines:
  "makeCommentBlock f d a dt sty =
     join nl (frame sty ([''                '' @ f] @ field '' '' d @ field '' Author: '' a
                         @ field '' Date: '' dt)) @ nl @ nl"
proof -
  consider (b) "sty = ''block''" | (h) "sty = ''hash''" | (c) "sty = ''cpp''"
    | (o) "sty \<noteq> ''block''" "sty \<noteq> ''hash''" "sty \<noteq> ''cpp''"
    by blast
  then show ?thesis
  proof cases
    case b
    show ?thesis unfolding b block_lines frame_def by simp
  next
    case h
    then show ?thesis
      unfolding makeCommentBlock.simps [of f d a dt sty] Let_def innerLines_fields frame_def
      by simp
  next
    case c
    then show ?thesis
      unfolding makeCommentBlock.simps [of f d a dt sty] Let_def innerLines_fields frame_def
      by simp
  next
    case o
    then have "makeCommentBlock f d a dt sty = makeCommentBlock f d a dt ''block''"
      by (subst makeCommentBlock.simps) (simp add: Let_def)
    then show ?thesis using o unfolding block_lines frame_def by simp
  qed
qed

lemma legacy_lines:
  "legacy_makeCommentBlock f d a dt =
     join nl ([''/**'' @ border46] @ ['' *                '' @ f] @ field '' *  '' d
              @ field '' *  Author: '' a @ field '' *  Date: '' dt
              @ ['' *'' @ border45 @ ''**/'']) @ nl @ nl"
  unfolding legacy_makeCommentBlock_def Let_def field_eq [symmetric] append_assoc by (rule refl)

lemma styled_filename: "sublist f (makeCommentBlock f d a dt sty)"
proof -
  let ?body = "[''                '' @ f] @ field '' '' d @ field '' Author: '' a
               @ field '' Date: '' dt"
  obtain pre where p: "pre @ ''                '' @ f \<in> set (frame sty ?body)"
    unfolding frame_def by (cases "sty = ''hash''"; cases "sty = ''cpp''") auto
  have "sublist f (pre @ ''                '' @ f)"
    by (metis append_assoc sublist_append_leftI)
  moreover have "sublist (pre @ ''                '' @ f) (join nl (frame sty ?body))"
    by (rule sublist_join [OF p])
  ultimately have "sublist f (join nl (frame sty ?body))"
    by (rule sublist_order.order_trans)
  then have "sublist f (join nl (frame sty ?body) @ nl @ nl)"
    by (rule sublist_right)
  then show ?thesis by (simp only: styled_lines)
qed

lemma legacy_filename: "sublist f (legacy_makeCommentBlock f d a dt)"
proof -
  let ?lines = "[''/**'' @ border46] @ ['' *                '' @ f] @ field '' *  '' d
                @ field '' *  Author: '' a @ field '' *  Date: '' dt
                @ ['' *'' @ border45 @ ''**/'']"
  have "sublist f ('' *                '' @ f)"
    by (rule sublist_append_leftI)
  moreover have "sublist ('' *                '' @ f) (join nl ?lines)"
    by (rule sublist_join) simp
  ultimately have "sublist f (join nl ?lines)"
    by (rule sublist_order.order_trans)
  then have "sublist f (join nl ?lines @ nl @ nl)"
    by (rule sublist_right)
  then show ?thesis by (simp only: legacy_lines)
qed

section \<open>The guard macro\<close>

lemma upper_replace: "toUpperCase (replaceNonAlnum s) = map guardChar s"
  by (induction s) (simp_all add: toUpperCase_def guardChar_def toUpper_underscore)

lemma guard_shape: "makeGuardMacro b t = map guardChar b @ ''_'' @ map guardChar t @ ''_''"
  by (simp add: makeGuardMacro_def upper_replace guardChar_def not_alnum_underscore)

lemma guardChar_range: "guardChar c \<in> set (upperAZ @ digits09 @ ''_'')"
  using isAlnum_upper [of c] by (auto simp: guardChar_def)

lemmas char_class_defs =
  isAlnum_def toUpperCase_def toUpperCaseChar_def lowerAZ_def upperAZ_def digits09_def

text \<open>
  C6: \<open>makeGuardMacro\<close> is a function of its two arguments that writes, for every character
  of \<open>baseName\<close>, an underscore and every character of \<open>tag\<close>, its upper-case form when it is
  in \<open>[A-Za-z0-9]\<close> and an underscore otherwise, and appends one more underscore. Nothing is
  dropped or added (a leading digit stays where it is), the result consists of \<open>A-Z\<close>,
  \<open>0-9\<close> and underscores, and the two examples of the specification hold.
\<close>

theorem makeGuardMacro_spec:
  "makeGuardMacro b t = map guardChar b @ ''_'' @ map guardChar t @ ''_''
   \<and> length (makeGuardMacro b t) = length b + length t + 2
   \<and> list_all (\<lambda>c. c \<in> set (upperAZ @ digits09 @ ''_'')) (makeGuardMacro b t)
   \<and> makeGuardMacro ''game'' ''H'' = ''GAME_H_''
   \<and> makeGuardMacro ''my-file'' ''HPP'' = ''MY_FILE_HPP_''
   \<and> makeGuardMacro ''3d-model'' ''H'' = ''3D_MODEL_H_''"
proof -
  have shape: "makeGuardMacro b t = map guardChar b @ ''_'' @ map guardChar t @ ''_''"
    by (rule guard_shape)
  have len: "length (makeGuardMacro b t) = length b + length t + 2"
    by (simp add: shape)
  have "list_all (\<lambda>c. c \<in> set (upperAZ @ digits09 @ ''_'')) (map guardChar s)" for s
    using guardChar_range by (simp add: list_all_iff)
  then have range: "list_all (\<lambda>c. c \<in> set (upperAZ @ digits09 @ ''_'')) (makeGuardMacro b t)"
    by (simp add: shape)
  have e1: "makeGuardMacro ''game'' ''H'' = ''GAME_H_''"
    by (simp add: makeGuardMacro_def char_class_defs)
  have e2: "makeGuardMacro ''my-file'' ''HPP'' = ''MY_FILE_HPP_''"
    by (simp add: makeGuardMacro_def char_class_defs)
  have e3: "makeGuardMacro ''3d-model'' ''H'' = ''3D_MODEL_H_''"
    by (simp add: makeGuardMacro_def char_class_defs)
  from shape len range e1 e2 e3 show ?thesis by blast
qed

section \<open>The class name\<close>

lemma capitalize_eq:
  "s \<noteq> [] \<Longrightarrow> toUpperCase (take (Suc 0) s) @ drop (Suc 0) s = capitalize s"
  by (cases s) (simp_all add: capitalize_def toUpperCase_def)

lemma alnumRuns_Nil: "alnumRuns [] = []"
  by (simp add: alnumRuns.simps [of "[]"])

lemma alnumRuns_start:
  "alnumRuns s =
     (if takeWhile isAlnum s = [] then [] else [takeWhile isAlnum s])
     @ alnumRuns (dropWhile isAlnum s)"
proof (cases s)
  case Nil
  then show ?thesis by (simp add: alnumRuns_Nil)
next
  case (Cons c cs)
  show ?thesis
  proof (cases "isAlnum c")
    case True
    then show ?thesis using Cons by (simp add: alnumRuns.simps [of "c # cs"])
  next
    case False
    then show ?thesis using Cons by simp
  qed
qed

lemma alnumRuns_skip:
  "\<not> isAlnum c \<Longrightarrow> alnumRuns (c # cs) = alnumRuns (dropWhile (\<lambda>x. \<not> isAlnum x) cs)"
  by (simp add: alnumRuns.simps [of "c # cs"] alnumRuns.simps [of "dropWhile (\<lambda>x. \<not> isAlnum x) cs"])

lemma jsSplitFrom_runs:
  "filter (\<lambda>s. s \<noteq> []) (jsSplitFrom cur s) =
     (if cur @ takeWhile isAlnum s = [] then [] else [cur @ takeWhile isAlnum s])
     @ alnumRuns (dropWhile isAlnum s)"
proof (induction cur s rule: jsSplitFrom.induct)
  case (1 cur)
  show ?case by (simp add: alnumRuns_Nil)
next
  case (2 cur c cs)
  show ?case
  proof (cases "isAlnum c")
    case True
    with 2 show ?thesis by simp
  next
    case False
    let ?r = "dropWhile (\<lambda>x. \<not> isAlnum x) cs"
    have "filter (\<lambda>s. s \<noteq> []) (jsSplitFrom [] ?r) =
        (if takeWhile isAlnum ?r = [] then [] else [takeWhile isAlnum ?r])
        @ alnumRuns (dropWhile isAlnum ?r)"
      using 2(2) [OF False] by simp
    also have "\<dots> = alnumRuns ?r"
      by (rule alnumRuns_start [symmetric])
    also have "\<dots> = alnumRuns (c # cs)"
      by (rule alnumRuns_skip [OF False, symmetric])
    finally show ?thesis using False by simp
  qed
qed

lemma jsSplit_runs: "filter (\<lambda>s. s \<noteq> []) (jsSplit s) = alnumRuns s"
  unfolding jsSplit_def jsSplitFrom_runs using alnumRuns_start [of s] by simp

lemma alnumRuns_alnum: "list_all (\<lambda>r. r \<noteq> [] \<and> list_all isAlnum r) (alnumRuns s)"
proof (induction s rule: alnumRuns.induct)
  case (1 s)
  show ?case
  proof (cases "dropWhile (\<lambda>x. \<not> isAlnum x) s")
    case Nil
    show ?thesis unfolding alnumRuns.simps [of s] Nil by simp
  next
    case (Cons c cs)
    have "isAlnum c"
      using Cons hd_dropWhile [of "\<lambda>x. \<not> isAlnum x" s] by auto
    moreover have "list_all isAlnum (takeWhile isAlnum cs)"
      by (simp add: list_all_iff) (meson set_takeWhileD)
    ultimately show ?thesis
      using 1 [OF Cons] unfolding alnumRuns.simps [of s] Cons by simp
  qed
qed

lemma upper_alnum: "isAlnum c \<Longrightarrow> isAlnum (toUpperCaseChar c)"
  using isAlnum_upper [of c] by (auto simp: isAlnum_def)

lemma capitalize_alnum: "\<forall>x\<in>set r. isAlnum x \<Longrightarrow> y \<in> set (capitalize r) \<Longrightarrow> isAlnum y"
  by (cases r) (auto simp: capitalize_def upper_alnum)

lemma toClassName_runs: "toClassName b = concat (map capitalize (alnumRuns b))"
proof -
  have m: "map (\<lambda>s. toUpperCase (take 1 s) @ drop 1 s) (alnumRuns b)
        = map capitalize (alnumRuns b)"
  proof (rule map_cong [OF refl])
    fix x
    assume "x \<in> set (alnumRuns b)"
    then have "x \<noteq> []"
      using alnumRuns_alnum [of b] by (simp add: list_all_iff)
    then show "toUpperCase (take 1 x) @ drop 1 x = capitalize x"
      by (simp add: capitalize_eq)
  qed
  show ?thesis unfolding toClassName_def jsSplit_runs m by (rule refl)
qed

text \<open>
  C7: \<open>toClassName\<close> splits its input at every run of characters outside \<open>[A-Za-z0-9]\<close>;
  once the empty pieces are dropped, the pieces are the maximal runs of alphanumeric characters;
  the result is their concatenation with the first character of each upper-cased, so it is
  alphanumeric throughout. The empty string gives the empty string, \<open>game\<close> gives \<open>Game\<close> and
  \<open>my_game-v2\<close> gives \<open>MyGameV2\<close>.
\<close>

theorem toClassName_spec:
  "filter (\<lambda>s. s \<noteq> []) (jsSplit b) = alnumRuns b
   \<and> toClassName b = concat (map capitalize (alnumRuns b))
   \<and> list_all isAlnum (toClassName b)
   \<and> toClassName [] = []
   \<and> toClassName ''game'' = ''Game''
   \<and> toClassName ''my_game-v2'' = ''MyGameV2''"
proof -
  have "\<forall>r\<in>set (alnumRuns b). \<forall>y\<in>set (capitalize r). isAlnum y"
    using alnumRuns_alnum [of b] capitalize_alnum by (simp add: list_all_iff) blast
  then have alnum: "list_all isAlnum (toClassName b)"
    by (simp add: toClassName_runs list_all_iff)
  have e0: "toClassName [] = []"
    by (simp add: toClassName_def jsSplit_def)
  have e1: "toClassName ''game'' = ''Game''"
    by (simp add: toClassName_def jsSplit_def char_class_defs)
  have e2: "toClassName ''my_game-v2'' = ''MyGameV2''"
    by (simp add: toClassName_def jsSplit_def char_class_defs)
  from jsSplit_runs [of b] toClassName_runs [of b] alnum e0 e1 e2 show ?thesis by blast
qed

section \<open>Borders and fields of the comment block\<close>

lemma field_cases:
  "field label None = []" "field label (Some []) = []"
  "field label (Some (c # cs)) = [label @ c # cs]"
  by (simp_all add: field_def)

text \<open>
  C4: in block style the comment block is, for every filename, description, author and date:
  the line \<open>/**\<close> with 46 \<open>=\<close> characters, the lines of the fields, each behind the prefix
  \<open> * \<close>, the line \<open> *\<close> with 45 \<open>=\<close> characters and \<open>**/\<close>, a line break and an empty
  line. The same holds for \<open>makeCommentBlock\<close> of \<open>src/extension.js\<close>, whose filename line has
  one space less.
\<close>

theorem block_style_borders:
  "makeCommentBlock f d a dt ''block'' =
     join nl ([''/**'' @ replicate 46 (CHR ''='')]
              @ map (\<lambda>l. '' * '' @ l)
                  ([''                '' @ f] @ field '' '' d @ field '' Author: '' a
                   @ field '' Date: '' dt)
              @ ['' *'' @ replicate 45 (CHR ''='') @ ''**/'']) @ nl @ nl
   \<and> legacy_makeCommentBlock f d a dt =
     join nl ([''/**'' @ replicate 46 (CHR ''='')]
              @ map (\<lambda>l. '' * '' @ l)
                  ([''               '' @ f] @ field '' '' d @ field '' Author: '' a
                   @ field '' Date: '' dt)
              @ ['' *'' @ replicate 45 (CHR ''='') @ ''**/'']) @ nl @ nl"
proof -
  have pre: "map (\<lambda>l. '' * '' @ l) (field label v) = field ('' * '' @ label) v" for label v
    by (simp add: field_def split: option.splits list.splits)
  have leg: "legacy_makeCommentBlock f d a dt =
     join nl ([''/**'' @ border46]
              @ map (\<lambda>l. '' * '' @ l)
                  ([''               '' @ f] @ field '' '' d @ field '' Author: '' a
                   @ field '' Date: '' dt)
              @ ['' *'' @ border45 @ ''**/'']) @ nl @ nl"
    unfolding legacy_lines map_append pre by simp
  show ?thesis
    unfolding border46_replicate [symmetric] border45_replicate [symmetric]
    by (rule conjI [OF block_lines leg])
qed

text \<open>
  C5: for every filename, description, author, date and style, the comment block contains the
  filename, and its lines are the border, the filename line, one line for each of description,
  author and date whose value is a non-empty string, and the border: a value that is undefined
  or empty contributes no line. The same holds for \<open>makeCommentBlock\<close> of \<open>src/extension.js\<close>.
\<close>

theorem comment_block_fields:
  "sublist f (makeCommentBlock f d a dt sty)
   \<and> sublist f (legacy_makeCommentBlock f d a dt)
   \<and> makeCommentBlock f d a dt sty =
       join nl (frame sty ([''                '' @ f] @ field '' '' d @ field '' Author: '' a
                           @ field '' Date: '' dt)) @ nl @ nl
   \<and> legacy_makeCommentBlock f d a dt =
       join nl ([''/**'' @ border46] @ ['' *                '' @ f] @ field '' *  '' d
                @ field '' *  Author: '' a @ field '' *  Date: '' dt
                @ ['' *'' @ border45 @ ''**/'']) @ nl @ nl
   \<and> field label None = []
   \<and> field label (Some []) = []
   \<and> field label (Some (c # cs)) = [label @ c # cs]"
proof -
  have f1: "field label None = []"
    by (rule field_cases)
  have f2: "field label (Some []) = []"
    by (rule field_cases)
  have f3: "field label (Some (c # cs)) = [label @ c # cs]"
    by (rule field_cases)
  from styled_filename [of f d a dt sty] legacy_filename [of f d a dt]
    styled_lines [of f d a dt sty] legacy_lines [of f d a dt] f1 f2 f3
  show ?thesis by blast
qed

section \<open>What the detection of an existing header accepts\<close>

lemma anywhere_suffix: "anywhere P s \<Longrightarrow> \<exists>t. suffix t s \<and> P t"
proof (induction s)
  case Nil
  then show ?case by auto
next
  case (Cons c cs)
  then show ?case by (auto intro: suffix_ConsI)
qed

lemma afterLineTerminator_suffix: "afterLineTerminator P s \<Longrightarrow> \<exists>t. suffix t s \<and> P t"
proof (induction s)
  case Nil
  then show ?case by simp
next
  case (Cons c cs)
  then show ?case by (auto intro: suffix_ConsI)
qed

lemma prefix_dropWhile_sublist: "prefix p (dropWhile Q xs) \<Longrightarrow> sublist p xs"
  using sublist_altdef' suffix_dropWhile by blast

lemma suffix_sublist_trans: "suffix t s \<Longrightarrow> sublist p t \<Longrightarrow> sublist p s"
  by (meson sublist_order.order_trans suffix_imp_sublist)

lemma hashBorderAt_border: "hashBorderAt t \<Longrightarrow> sublist ''==='' t"
proof -
  assume "hashBorderAt t"
  then obtain c cs where t: "t = c # cs"
    and p: "prefix ''==='' (dropWhile isSpace (dropWhile (\<lambda>x. x = CHR ''#'') cs))"
    by (auto simp: hashBorderAt_def split: list.splits)
  have "sublist ''==='' (dropWhile (\<lambda>x. x = CHR ''#'') cs)"
    by (rule prefix_dropWhile_sublist [OF p])
  then have "sublist ''==='' cs"
    by (rule suffix_sublist_trans [OF suffix_dropWhile])
  then show ?thesis unfolding t by (simp add: sublist_Cons_right)
qed

lemma lineHashBorderAt_border: "lineHashBorderAt t \<Longrightarrow> sublist ''==='' t"
proof -
  assume "lineHashBorderAt t"
  then obtain c cs where t: "t = c # cs" and p: "prefix ''==='' (dropWhile isSpace cs)"
    by (auto simp: lineHashBorderAt_def split: list.splits)
  have "sublist ''==='' cs"
    by (rule prefix_dropWhile_sublist [OF p])
  then show ?thesis unfolding t by (simp add: sublist_Cons_right)
qed

lemma anywhere_hash_border: "anywhere hashBorderAt s \<Longrightarrow> sublist ''==='' s"
  using anywhere_suffix hashBorderAt_border suffix_sublist_trans by blast

lemma atLineStart_border: "atLineStart lineHashBorderAt s \<Longrightarrow> sublist ''==='' s"
  unfolding atLineStart_def
  using afterLineTerminator_suffix lineHashBorderAt_border suffix_sublist_trans by blast

lemma hasHeaderAtTop_iff:
  "hasHeaderAtTop t \<longleftrightarrow>
     sublist ''/**'' (firstLines 8 t)
     \<or> (prefix ''#!'' (trim (firstLines 8 t)) \<and> sublist ''==='' (firstLines 10 t))
     \<or> sublist ''==='' (firstLines 8 t)"
proof (cases "t = []")
  case True
  then show ?thesis by (simp add: hasHeaderAtTop_def firstLines_def splitLines_def trim_def)
next
  case False
  then show ?thesis
    unfolding hasHeaderAtTop_def Let_def firstLines_def
    using anywhere_hash_border [of "join nl (take 10 (splitLines t))"]
      atLineStart_border [of "join nl (take 8 (splitLines t))"]
    by auto
qed

lemma splitLinesFrom_hd: "\<exists>l ls. splitLinesFrom cur s = l # ls \<and> prefix cur l"
proof (induction s arbitrary: cur)
  case Nil
  show ?case by simp
next
  case (Cons c cs)
  show ?case
  proof (cases "c = CHR 0x0A")
    case True
    then show ?thesis by simp
  next
    case False
    obtain l ls where "splitLinesFrom (cur @ [c]) cs = l # ls" "prefix (cur @ [c]) l"
      using Cons [of "cur @ [c]"] by blast
    then show ?thesis using False by (auto dest: append_prefixD)
  qed
qed

lemma prefix_firstLines: "prefix (join nl (take n (splitLinesFrom cur s))) (cur @ s)"
proof (induction s arbitrary: cur n)
  case Nil
  show ?case by (cases n) simp_all
next
  case (Cons c cs)
  show ?case
  proof (cases "c = CHR 0x0A")
    case True
    show ?thesis
    proof (cases n)
      case 0
      then show ?thesis by simp
    next
      case (Suc m)
      have "prefix (join nl (take m (splitLinesFrom [] cs))) cs"
        using Cons [of m "[]"] by simp
      then show ?thesis using True Suc by (simp add: join_Cons nl_def)
    qed
  next
    case False
    then show ?thesis using Cons [of n "cur @ [c]"] by simp
  qed
qed

lemma firstLines_prefix: "prefix (firstLines n t) t"
  unfolding firstLines_def splitLines_def using prefix_firstLines [of n "[]" t] by simp

lemma trim_empty: "trim s = [] \<Longrightarrow> c \<in> set s \<Longrightarrow> isSpace c"
proof -
  assume a: "trim s = []" and c: "c \<in> set s"
  have "\<forall>x \<in> set (dropWhile isSpace s). isSpace x"
    using a by (simp add: trim_def dropWhile_eq_Nil_conv)
  then have "dropWhile isSpace s = []"
    using hd_dropWhile [of isSpace s] by (metis list.set_sel(1))
  then show ?thesis using c by (simp add: dropWhile_eq_Nil_conv)
qed

lemma firstLines_char: "sublist p (firstLines n t) \<Longrightarrow> c \<in> set p \<Longrightarrow> c \<in> set t"
proof -
  assume "sublist p (firstLines n t)" and c: "c \<in> set p"
  then have "sublist p t"
    using firstLines_prefix [of n t] by (meson prefix_imp_sublist sublist_order.order_trans)
  then show ?thesis using c set_mono_sublist by blast
qed

lemma hasHeader_nonblank: "hasHeaderAtTop t \<Longrightarrow> trim t \<noteq> []"
proof
  assume h: "hasHeaderAtTop t" and e: "trim t = []"
  have "CHR ''*'' \<in> set t \<or> CHR ''='' \<in> set t"
    using h unfolding hasHeaderAtTop_iff
    using firstLines_char [of "''/**''" 8 t "CHR ''*''"]
      firstLines_char [of "''===''" 8 t "CHR ''=''"]
      firstLines_char [of "''===''" 10 t "CHR ''=''"] by auto
  then have "isSpace (CHR ''*'') \<or> isSpace (CHR ''='')"
    using trim_empty [OF e] by blast
  then show False by (simp add: isSpace_def)
qed

lemma hasHeader_start: "hasHeaderAtTop (''/**'' @ r)"
proof -
  have "splitLines (''/**'' @ r) = splitLinesFrom ''/**'' r"
    by (simp add: splitLines_def)
  then obtain l ls where s: "splitLines (''/**'' @ r) = l # ls" and p: "prefix ''/**'' l"
    using splitLinesFrom_hd [of "''/**''" r] by auto
  have "prefix l (firstLines 8 (''/**'' @ r))"
    unfolding firstLines_def s by (simp add: join_Cons)
  then have "prefix ''/**'' (firstLines 8 (''/**'' @ r))"
    using p by (rule prefix_order.order_trans [rotated])
  then show ?thesis unfolding hasHeaderAtTop_iff by blast
qed

lemma hasHeader_top_only:
  "take 10 (splitLines a) = take 10 (splitLines b) \<Longrightarrow> hasHeaderAtTop a = hasHeaderAtTop b"
proof -
  assume e: "take 10 (splitLines a) = take 10 (splitLines b)"
  have "take 8 (take 10 (splitLines a)) = take 8 (take 10 (splitLines b))"
    using e by simp
  then have "take 8 (splitLines a) = take 8 (splitLines b)"
    by simp
  then show ?thesis unfolding hasHeaderAtTop_iff firstLines_def using e by simp
qed

text \<open>
  C8, as the code has it: \<open>hasHeaderAtTop\<close> is a total function that looks at the first
  ten lines of its input only. It is true exactly when the first eight lines contain \<open>/**\<close>,
  or the first eight lines, trimmed, begin with \<open>#!\<close> and the first ten lines contain three
  \<open>=\<close> in a row, or the first eight lines contain three \<open>=\<close> in a row (the tests that
  allow a \<open>#\<close> before the \<open>=\<close> add nothing to these). The shebang is looked for in the
  trimmed first eight lines, not in the trimmed text. The function is true for every text that
  begins with \<open>/**\<close>, so for \<open>/**==...\<close>, and false for the empty string.
\<close>

theorem hasHeaderAtTop_spec:
  "(hasHeaderAtTop t \<longleftrightarrow>
      sublist ''/**'' (firstLines 8 t)
      \<or> (prefix ''#!'' (trim (firstLines 8 t)) \<and> sublist ''==='' (firstLines 10 t))
      \<or> sublist ''==='' (firstLines 8 t))
   \<and> (take 10 (splitLines t) = take 10 (splitLines u) \<longrightarrow> hasHeaderAtTop t = hasHeaderAtTop u)
   \<and> hasHeaderAtTop (''/**'' @ r)
   \<and> \<not> hasHeaderAtTop []"
proof -
  have "\<not> hasHeaderAtTop []"
    by (simp add: hasHeaderAtTop_def)
  with hasHeaderAtTop_iff [of t] hasHeader_top_only [of t u] hasHeader_start [of r]
  show ?thesis by blast
qed

theorem hasHeaderAtTop_spec_witness:
  "take 10 (splitLines ''1\<newline>2\<newline>3\<newline>4\<newline>5\<newline>6\<newline>7\<newline>8\<newline>9\<newline>10\<newline>/**'')
     = take 10 (splitLines ''1\<newline>2\<newline>3\<newline>4\<newline>5\<newline>6\<newline>7\<newline>8\<newline>9\<newline>10\<newline>int x;'')
   \<and> hasHeaderAtTop ''1\<newline>2\<newline>3\<newline>4\<newline>5\<newline>6\<newline>7\<newline>8\<newline>9\<newline>10\<newline>/**''
     = hasHeaderAtTop ''1\<newline>2\<newline>3\<newline>4\<newline>5\<newline>6\<newline>7\<newline>8\<newline>9\<newline>10\<newline>int x;''
   \<and> hasHeaderAtTop ''/**==''"
proof -
  let ?a = "''1\<newline>2\<newline>3\<newline>4\<newline>5\<newline>6\<newline>7\<newline>8\<newline>9\<newline>10\<newline>/**''"
  let ?b = "''1\<newline>2\<newline>3\<newline>4\<newline>5\<newline>6\<newline>7\<newline>8\<newline>9\<newline>10\<newline>int x;''"
  have e: "take 10 (splitLines ?a) = take 10 (splitLines ?b)"
    by (simp add: splitLines_def)
  from hasHeaderAtTop_spec [of ?a ?b "''==''"]
  have i: "take 10 (splitLines ?a) = take 10 (splitLines ?b)
      \<longrightarrow> hasHeaderAtTop ?a = hasHeaderAtTop ?b"
    and s: "hasHeaderAtTop (''/**'' @ ''=='')"
    by blast+
  have same: "hasHeaderAtTop ?a = hasHeaderAtTop ?b"
    by (rule mp [OF i e])
  have start: "hasHeaderAtTop ''/**==''"
    using s by simp
  show ?thesis
    by (intro conjI e same start)
qed

text \<open>
  The claim as it was stated, with the shebang sought at the start of the trimmed text, fails on
  eight empty lines followed by a shebang line and a border line: the trimmed text begins with
  \<open>#!\<close> and the tenth line has three \<open>=\<close> in a row behind a \<open>#\<close>, but the first eight
  lines are empty and the function is false.
\<close>

theorem shebang_below_blank_lines_counterexample:
  "prefix ''#!''
     (trim ''\<newline>\<newline>\<newline>\<newline>\<newline>\<newline>\<newline>\<newline>#!/bin/sh\<newline># ==='')
   \<and> sublist ''===''
       (firstLines 10 ''\<newline>\<newline>\<newline>\<newline>\<newline>\<newline>\<newline>\<newline>#!/bin/sh\<newline># ==='')
   \<and> anywhere hashBorderAt
       (firstLines 10 ''\<newline>\<newline>\<newline>\<newline>\<newline>\<newline>\<newline>\<newline>#!/bin/sh\<newline># ==='')
   \<and> \<not> hasHeaderAtTop
       ''\<newline>\<newline>\<newline>\<newline>\<newline>\<newline>\<newline>\<newline>#!/bin/sh\<newline># ===''"
proof -
  let ?t = "''\<newline>\<newline>\<newline>\<newline>\<newline>\<newline>\<newline>\<newline>#!/bin/sh\<newline># ===''"
  have ten: "firstLines 10 ?t = ?t"
    by (simp add: firstLines_def splitLines_def nl_def)
  have eight: "firstLines 8 ?t = ''\<newline>\<newline>\<newline>\<newline>\<newline>\<newline>\<newline>''"
    by (simp add: firstLines_def splitLines_def nl_def)
  have a: "prefix ''#!'' (trim ?t)"
    by (simp add: trim_def isSpace_def)
  have b: "sublist ''==='' (firstLines 10 ?t)"
    unfolding ten by (simp add: sublist_code)
  have c: "anywhere hashBorderAt (firstLines 10 ?t)"
    unfolding ten by (simp add: hashBorderAt_def isSpace_def)
  have d: "\<not> hasHeaderAtTop ?t"
    unfolding hasHeaderAtTop_iff eight by (simp add: sublist_code trim_def isSpace_def)
  show ?thesis
    by (intro conjI a b c d)
qed

section \<open>The entry points in normal form\<close>

lemma insertedTexts_append: "insertedTexts (a @ b) = insertedTexts a @ insertedTexts b"
  by (induction a rule: insertedTexts.induct) simp_all

lemma configUpdates_append: "configUpdates (a @ b) = configUpdates a @ configUpdates b"
  by (induction a rule: configUpdates.induct) simp_all

lemma persist_inserted: "insertedTexts (fst (persistAuthor h)) = []"
  by (simp add: persistAuthor_def Let_def)

lemma persist_cfg:
  "snd (persistAuthor h) =
     (if truthy (authorBox h) \<and> authorBox h \<noteq> defaultAuthor h \<and> \<not> updateThrows h
      then authorBox h else defaultAuthor h)"
  by (simp add: persistAuthor_def Let_def)

lemma persist_updates:
  "configUpdates (fst (persistAuthor h)) =
     (if truthy (authorBox h) \<and> authorBox h \<noteq> defaultAuthor h then [str (authorBox h)] else [])"
  by (simp add: persistAuthor_def Let_def)

lemma guardPrompts_quiet:
  "insertedTexts (guardPrompts doc) = []" "configUpdates (guardPrompts doc) = []"
  by (simp_all add: guardPrompts_def)

lemma insertHeader_some:
  "insertHeader h (Some doc) =
     (if hasHeaderAtTop (getText doc) then
        \<lparr>events = [InputBox ''Author (github)'' (savedAuthorOf h),
                   InputBox ''Short description (shown under filename)'' []]
                  @ guardPrompts doc
                  @ [InformationMessage ''A header already exists in this file.''],
         textAfter = Some (getText doc), configAfter = defaultAuthor h\<rparr>
      else
        \<lparr>events = [InputBox ''Author (github)'' (savedAuthorOf h),
                   InputBox ''Short description (shown under filename)'' []]
                  @ guardPrompts doc @ [Insert (headerText h doc)] @ fst (persistAuthor h)
                  @ [InformationMessage ''Pro header inserted.''],
         textAfter = Some (headerText h doc @ getText doc),
         configAfter = snd (persistAuthor h)\<rparr>)"
  by (simp add: insertHeader_def headerText_def guardPrompts_def Let_def case_prod_beta)

lemma auto_some:
  "autoInsertHeaderForDocument h (Some doc) =
     (if trim (getText doc) \<noteq> [] then
        \<lparr>events = [], textAfter = Some (getText doc), configAfter = defaultAuthor h\<rparr>
      else
        \<lparr>events = [Insert (createdText h doc (Some []) (Some (savedAuthorOf h)))],
         textAfter = Some (createdText h doc (Some []) (Some (savedAuthorOf h)) @ getText doc),
         configAfter = defaultAuthor h\<rparr>)"
  by (simp add: autoInsertHeaderForDocument_def createdText_def Let_def)

lemma created_some:
  "interactiveInsertForCreatedDocument h (Some doc) =
     (if trim (getText doc) \<noteq> [] then
        \<lparr>events = [], textAfter = Some (getText doc), configAfter = defaultAuthor h\<rparr>
      else
        \<lparr>events = [InputBox ''Author (github)'' (savedAuthorOf h),
                   InputBox ''Short description (shown under filename)'' []]
                  @ [Insert (createdText h doc (js_or (descriptionBox h) (Some []))
                       (js_or (js_or (authorBox h) (Some (savedAuthorOf h)))
                          (Some (savedAuthorOf h))))]
                  @ fst (persistAuthor h),
         textAfter = Some (createdText h doc (js_or (descriptionBox h) (Some []))
                       (js_or (js_or (authorBox h) (Some (savedAuthorOf h)))
                          (Some (savedAuthorOf h)))
                     @ getText doc),
         configAfter = snd (persistAuthor h)\<rparr>)"
  by (simp add: interactiveInsertForCreatedDocument_def createdText_def Let_def case_prod_beta)

lemma legacy_some:
  "legacy_insertHeader h (Some doc) =
     (if supported (extNoDot (fileExt doc)) then
        \<lparr>events = [InputBox ''Author (github)''
                     (str (js_or (js_or (GIT_AUTHOR_NAME h) (USER h)) (Some []))),
                   InputBox ''Short description (shown under filename)'' []]
                  @ guardPrompts doc
                  @ [Insert (legacyText h doc), InformationMessage ''Pro header inserted.''],
         textAfter = Some (legacyText h doc @ getText doc), configAfter = defaultAuthor h\<rparr>
      else
        \<lparr>events = [InputBox ''Author (github)''
                     (str (js_or (js_or (GIT_AUTHOR_NAME h) (USER h)) (Some []))),
                   InputBox ''Short description (shown under filename)'' [],
                   InformationMessage
                     (''Extension '' @ extNoDot (fileExt doc) @ '' is not supported by proHeader.'')],
         textAfter = Some (getText doc), configAfter = defaultAuthor h\<rparr>)"
  by (simp add: legacy_insertHeader_def legacyText_def guardPrompts_def supported_def Let_def
      case_prod_beta)

lemma no_document:
  "insertHeader h None =
     \<lparr>events = [WarningMessage ''No active editor - open a file to insert a header.''],
      textAfter = None, configAfter = defaultAuthor h\<rparr>"
  "interactiveInsertForCreatedDocument h None =
     \<lparr>events = [], textAfter = None, configAfter = defaultAuthor h\<rparr>"
  "autoInsertHeaderForDocument h None =
     \<lparr>events = [], textAfter = None, configAfter = defaultAuthor h\<rparr>"
  "legacy_insertHeader h None =
     \<lparr>events = [WarningMessage ''No active editor - open a file to insert a header.''],
      textAfter = None, configAfter = defaultAuthor h\<rparr>"
  by (simp_all add: insertHeader_def interactiveInsertForCreatedDocument_def
      autoInsertHeaderForDocument_def legacy_insertHeader_def)

lemma insertHeader_inserted:
  "insertedTexts (events (insertHeader h (Some doc))) =
     (if hasHeaderAtTop (getText doc) then [] else [headerText h doc])"
  by (simp add: insertHeader_some insertedTexts_append guardPrompts_quiet persist_inserted)

lemma auto_inserted:
  "insertedTexts (events (autoInsertHeaderForDocument h (Some doc))) =
     (if trim (getText doc) \<noteq> [] then []
      else [createdText h doc (Some []) (Some (savedAuthorOf h))])"
  by (simp add: auto_some)

lemma created_inserted:
  "insertedTexts (events (interactiveInsertForCreatedDocument h (Some doc))) =
     (if trim (getText doc) \<noteq> [] then []
      else [createdText h doc (js_or (descriptionBox h) (Some []))
              (js_or (js_or (authorBox h) (Some (savedAuthorOf h))) (Some (savedAuthorOf h)))])"
  by (simp add: created_some insertedTexts_append persist_inserted)

lemma legacy_inserted:
  "insertedTexts (events (legacy_insertHeader h (Some doc))) =
     (if supported (extNoDot (fileExt doc)) then [legacyText h doc] else [])"
  by (simp add: legacy_some insertedTexts_append guardPrompts_quiet)

lemma hash_starts: "prefix ''# ='' (makeCommentBlock f d a dt ''hash'')"
  by (simp add: styled_lines frame_def join_Cons border46_def)

lemma block_starts: "prefix ''/**'' (makeCommentBlock f d a dt ''block'')"
  by (simp add: styled_lines frame_def join_Cons)

lemma legacy_starts: "prefix ''/**'' (legacy_makeCommentBlock f d a dt)"
  by (simp add: legacy_lines join_Cons)

lemma implBlock_Game: "implBlock ''Game'' = gameImpl"
  by (simp add: implBlock_def gameImpl_def toClassName_def jsSplit_def char_class_defs)

section \<open>An existing header\<close>

text \<open>
  C1, as the code has it: when \<open>hasHeaderAtTop\<close> holds for the text of the document,
  \<open>insertHeader\<close> leaves text and setting as they are, inserts nothing and, after its input
  boxes, shows the notice that a header exists; \<open>autoInsertHeaderForDocument\<close> and
  \<open>interactiveInsertForCreatedDocument\<close> leave the text as it is and do nothing that could be
  seen, no notice either; \<open>insertHeader\<close> of \<open>src/extension.js\<close> never looks at the text and
  puts its generated text in front of it whenever the extension is one of the four it supports.
\<close>

theorem existing_header_unchanged:
  assumes "hasHeaderAtTop (getText doc)"
  shows "insertHeader h (Some doc) =
           \<lparr>events = [InputBox ''Author (github)'' (savedAuthorOf h),
                      InputBox ''Short description (shown under filename)'' []]
                     @ guardPrompts doc
                     @ [InformationMessage ''A header already exists in this file.''],
            textAfter = Some (getText doc), configAfter = defaultAuthor h\<rparr>
         \<and> insertedTexts (events (insertHeader h (Some doc))) = []
         \<and> autoInsertHeaderForDocument h (Some doc) =
           \<lparr>events = [], textAfter = Some (getText doc), configAfter = defaultAuthor h\<rparr>
         \<and> interactiveInsertForCreatedDocument h (Some doc) =
           \<lparr>events = [], textAfter = Some (getText doc), configAfter = defaultAuthor h\<rparr>
         \<and> insertedTexts (events (legacy_insertHeader h (Some doc))) =
           (if supported (extNoDot (fileExt doc)) then [legacyText h doc] else [])
         \<and> textAfter (legacy_insertHeader h (Some doc)) =
           (if supported (extNoDot (fileExt doc)) then Some (legacyText h doc @ getText doc)
            else Some (getText doc))"
proof -
  have t: "trim (getText doc) \<noteq> []"
    by (rule hasHeader_nonblank [OF assms])
  have a: "insertHeader h (Some doc) =
           \<lparr>events = [InputBox ''Author (github)'' (savedAuthorOf h),
                      InputBox ''Short description (shown under filename)'' []]
                     @ guardPrompts doc
                     @ [InformationMessage ''A header already exists in this file.''],
            textAfter = Some (getText doc), configAfter = defaultAuthor h\<rparr>"
    using assms by (simp only: insertHeader_some if_True)
  have b: "insertedTexts (events (insertHeader h (Some doc))) = []"
    using assms by (simp only: insertHeader_inserted if_True)
  have c: "autoInsertHeaderForDocument h (Some doc) =
           \<lparr>events = [], textAfter = Some (getText doc), configAfter = defaultAuthor h\<rparr>"
    using t by (simp add: auto_some)
  have d: "interactiveInsertForCreatedDocument h (Some doc) =
           \<lparr>events = [], textAfter = Some (getText doc), configAfter = defaultAuthor h\<rparr>"
    using t by (simp add: created_some)
  have e: "textAfter (legacy_insertHeader h (Some doc)) =
           (if supported (extNoDot (fileExt doc)) then Some (legacyText h doc @ getText doc)
            else Some (getText doc))"
    by (simp add: legacy_some)
  show ?thesis
    by (intro conjI a b c d e legacy_inserted)
qed

lemma quiet_saved: "savedAuthorOf quietHost = []"
  by (simp add: savedAuthorOf_def quietHost_def js_or_def truthy_def str_def)

lemma quiet_fields:
  "defaultAuthor quietHost = None" "authorBox quietHost = None"
  "descriptionBox quietHost = None" "today quietHost = ''2025-10-22''"
  by (simp_all add: quietHost_def)

lemma keyboard_fields:
  "getText (keyboardC t) = t" "guardPrompts (keyboardC t) = []"
  "extNoDot (fileExt (keyboardC t)) = ''c''" "basenameWithExt (keyboardC t) = ''keyboard.c''"
  by (simp_all add: keyboardC_def guardPrompts_def extNoDot_def)

lemma keyboard_header: "hasHeaderAtTop (getText (keyboardC ''/**===''))"
  using hasHeader_start [of "''===''"] by (simp add: keyboard_fields)

theorem existing_header_unchanged_witness:
  "hasHeaderAtTop (getText (keyboardC ''/**===''))
   \<and> events (insertHeader quietHost (Some (keyboardC ''/**===''))) =
       [InputBox ''Author (github)'' [],
        InputBox ''Short description (shown under filename)'' [],
        InformationMessage ''A header already exists in this file.'']
   \<and> textAfter (insertHeader quietHost (Some (keyboardC ''/**===''))) = Some ''/**===''
   \<and> autoInsertHeaderForDocument quietHost (Some (keyboardC ''/**===''))
       = \<lparr>events = [], textAfter = Some ''/**==='', configAfter = None\<rparr>
   \<and> interactiveInsertForCreatedDocument quietHost (Some (keyboardC ''/**===''))
       = \<lparr>events = [], textAfter = Some ''/**==='', configAfter = None\<rparr>"
  using existing_header_unchanged [OF keyboard_header, of quietHost] keyboard_header
  by (simp add: quiet_saved quiet_fields keyboard_fields)

text \<open>
  The claim as it was stated fails twice on a C file that begins with \<open>/**===\<close>: the entry
  point for new files reports nothing, and \<open>insertHeader\<close> of \<open>src/extension.js\<close> changes the
  text.
\<close>

theorem existing_header_counterexample:
  "hasHeaderAtTop (getText (keyboardC ''/**===''))
   \<and> events (autoInsertHeaderForDocument quietHost (Some (keyboardC ''/**===''))) = []
   \<and> events (interactiveInsertForCreatedDocument quietHost (Some (keyboardC ''/**===''))) = []
   \<and> textAfter (legacy_insertHeader quietHost (Some (keyboardC ''/**===''))) \<noteq> Some ''/**===''"
proof -
  have t: "trim (getText (keyboardC ''/**==='')) \<noteq> []"
    by (rule hasHeader_nonblank [OF keyboard_header])
  have a: "events (autoInsertHeaderForDocument quietHost (Some (keyboardC ''/**===''))) = []"
    using t by (simp add: auto_some)
  have b: "events (interactiveInsertForCreatedDocument quietHost (Some (keyboardC ''/**===''))) = []"
    using t by (simp add: created_some)
  have s: "supported (extNoDot (fileExt (keyboardC ''/**===''))) "
    by (simp add: supported_def keyboard_fields)
  have "legacyText quietHost (keyboardC ''/**==='') \<noteq> []"
    using legacy_starts [of "''keyboard.c''" None None "Some ''2025-10-22''"]
    by (auto simp: legacyText_def keyboard_fields quiet_fields)
  then have c: "textAfter (legacy_insertHeader quietHost (Some (keyboardC ''/**===''))) \<noteq> Some ''/**===''"
    using s by (simp add: legacy_some keyboard_fields)
  show ?thesis
    by (intro conjI keyboard_header a b c)
qed

section \<open>The order of check and input boxes\<close>

text \<open>
  C3, as the code has it: \<open>autoInsertHeaderForDocument\<close> shows no input box at all. It and
  \<open>interactiveInsertForCreatedDocument\<close> return before anything else happens, so before any
  input box, on a document whose trimmed text is not empty, that is, whose text has a character
  other than white space; a document with a header is one of these. On a text that is empty or
  white space only, \<open>interactiveInsertForCreatedDocument\<close> shows the author box and the
  description box and inserts. \<open>insertHeader\<close> checks for a header only after its input
  boxes: with a header in place it shows the author box, the description box and, for \<open>h\<close>
  and \<open>hpp\<close>, the guard box, and then the notice.
\<close>

theorem short_circuit_order:
  "(trim (getText doc) \<noteq> [] \<longrightarrow>
      events (autoInsertHeaderForDocument h (Some doc)) = []
      \<and> events (interactiveInsertForCreatedDocument h (Some doc)) = [])
   \<and> (hasHeaderAtTop (getText doc) \<longrightarrow>
      trim (getText doc) \<noteq> []
      \<and> events (insertHeader h (Some doc)) =
          [InputBox ''Author (github)'' (savedAuthorOf h),
           InputBox ''Short description (shown under filename)'' []]
          @ guardPrompts doc
          @ [InformationMessage ''A header already exists in this file.''])
   \<and> filter isInputBox (events (autoInsertHeaderForDocument h d)) = []
   \<and> (trim (getText doc) = [] \<longrightarrow>
      filter isInputBox (events (interactiveInsertForCreatedDocument h (Some doc))) =
          [InputBox ''Author (github)'' (savedAuthorOf h),
           InputBox ''Short description (shown under filename)'' []]
      \<and> length (insertedTexts (events (interactiveInsertForCreatedDocument h (Some doc)))) = 1)"
proof -
  have p: "filter isInputBox (fst (persistAuthor h)) = []"
    by (simp add: persistAuthor_def Let_def)
  have e: "trim (getText doc) = [] \<longrightarrow>
      filter isInputBox (events (interactiveInsertForCreatedDocument h (Some doc))) =
          [InputBox ''Author (github)'' (savedAuthorOf h),
           InputBox ''Short description (shown under filename)'' []]
      \<and> length (insertedTexts (events (interactiveInsertForCreatedDocument h (Some doc)))) = 1"
    by (simp add: created_some p insertedTexts_append persist_inserted)
  have a: "trim (getText doc) \<noteq> [] \<longrightarrow>
      events (autoInsertHeaderForDocument h (Some doc)) = []
      \<and> events (interactiveInsertForCreatedDocument h (Some doc)) = []"
    by (simp add: auto_some created_some)
  have b: "hasHeaderAtTop (getText doc) \<longrightarrow>
      trim (getText doc) \<noteq> []
      \<and> events (insertHeader h (Some doc)) =
          [InputBox ''Author (github)'' (savedAuthorOf h),
           InputBox ''Short description (shown under filename)'' []]
          @ guardPrompts doc
          @ [InformationMessage ''A header already exists in this file.'']"
    using hasHeader_nonblank [of "getText doc"] by (simp add: insertHeader_some)
  have c: "filter isInputBox (events (autoInsertHeaderForDocument h d)) = []"
    by (cases d) (simp_all add: auto_some no_document)
  show ?thesis
    by (intro conjI a b c e)
qed

theorem short_circuit_order_witness:
  "trim (getText (keyboardC ''/**==='')) \<noteq> []
   \<and> hasHeaderAtTop (getText (keyboardC ''/**===''))
   \<and> events (autoInsertHeaderForDocument quietHost (Some (keyboardC ''/**===''))) = []
   \<and> events (interactiveInsertForCreatedDocument quietHost (Some (keyboardC ''/**===''))) = []
   \<and> events (insertHeader quietHost (Some (keyboardC ''/**===''))) =
       [InputBox ''Author (github)'' [],
        InputBox ''Short description (shown under filename)'' [],
        InformationMessage ''A header already exists in this file.'']
   \<and> trim (getText (keyboardC ''\<newline>'')) = []
   \<and> filter isInputBox
         (events (interactiveInsertForCreatedDocument quietHost (Some (keyboardC ''\<newline>'')))) =
       [InputBox ''Author (github)'' [],
        InputBox ''Short description (shown under filename)'' []]"
proof -
  have blank: "trim (getText (keyboardC ''\<newline>'')) = []"
    by (simp add: keyboard_fields trim_def isSpace_def)
  show ?thesis
    using short_circuit_order [of "keyboardC ''/**===''" quietHost None] keyboard_header
      short_circuit_order [of "keyboardC ''\<newline>''" quietHost None] blank
    by (simp add: quiet_saved keyboard_fields)
qed

text \<open>
  The claim as it was stated fails for \<open>insertHeader\<close>: on a document that has a header, two
  input boxes are shown before the check is made.
\<close>

theorem prompt_before_check_counterexample:
  "hasHeaderAtTop (getText (keyboardC ''/**===''))
   \<and> filter isInputBox (events (insertHeader quietHost (Some (keyboardC ''/**===''))))
       = [InputBox ''Author (github)'' [],
          InputBox ''Short description (shown under filename)'' []]"
  using keyboard_header
  by (simp add: insertHeader_some quiet_saved keyboard_fields)

section \<open>The generated text of a C++ source file\<close>

lemma det_cpp: "detectStyle ''cpp'' b = \<lparr>style = ''block'', shebang = False\<rparr>"
  by (simp add: detectStyle_def)

lemma det_py: "detectStyle ''py'' b = \<lparr>style = ''hash'', shebang = True\<rparr>"
  by (simp add: detectStyle_def)

lemma headerText_cpp:
  "extNoDot (fileExt doc) = ''cpp'' \<Longrightarrow>
   headerText h doc =
     makeCommentBlock (basenameWithExt doc) (descriptionBox h)
       (js_or (authorBox h) (Some (savedAuthorOf h))) (Some (today h)) ''block''
     @ implBlock (basename doc)"
  by (simp add: headerText_def det_cpp)

lemma createdText_cpp:
  "extNoDot (fileExt doc) = ''cpp'' \<Longrightarrow>
   createdText h doc d a =
     makeCommentBlock (basenameWithExt doc) d a (Some (today h)) ''block''
     @ implBlock (basename doc)"
  by (simp add: createdText_def createdContent_def det_cpp)

lemma legacyText_cpp:
  "extNoDot (fileExt doc) = ''cpp'' \<Longrightarrow>
   legacyText h doc =
     legacy_makeCommentBlock (basenameWithExt doc) (descriptionBox h) (authorBox h)
       (Some (today h))
     @ implBlock (basename doc)"
  by (simp add: legacyText_def)

lemma supported_cpp: "supported ''cpp''"
  by (simp add: supported_def)

lemma gameImpl_parts:
  "prefix (''#include '' @ dq @ ''Game.hpp'' @ dq @ nl) gameImpl"
  "sublist (''Game::Game()'' @ nl @ ''{'' @ nl @ ''}'' @ nl) gameImpl"
  "sublist (''Game::~Game()'' @ nl @ ''{'' @ nl @ ''}'' @ nl) gameImpl"
  by (simp_all add: gameImpl_def dq_def nl_def sublist_code)

text \<open>
  C2, as the code has it: for the basename \<open>Game\<close> and the extension \<open>cpp\<close>, the text that
  an entry point generates is its comment block, which begins with \<open>/**\<close>, followed by the
  implementation block; the implementation block begins with the line
  \<open>#include "Game.hpp"\<close> and contains the definitions of \<open>Game::Game()\<close> and
  \<open>Game::~Game()\<close> with empty bodies. \<open>insertHeader\<close> inserts it unless the document has a
  header, the two entry points for created files unless the document is non-empty, and
  \<open>insertHeader\<close> of \<open>src/extension.js\<close> always.
\<close>

theorem game_cpp_text:
  assumes "basename doc = ''Game''" and "extNoDot (fileExt doc) = ''cpp''"
  shows "insertedTexts (events (insertHeader h (Some doc))) =
           (if hasHeaderAtTop (getText doc) then []
            else [makeCommentBlock (basenameWithExt doc) (descriptionBox h)
                    (js_or (authorBox h) (Some (savedAuthorOf h))) (Some (today h)) ''block''
                  @ gameImpl])
         \<and> insertedTexts (events (autoInsertHeaderForDocument h (Some doc))) =
           (if trim (getText doc) \<noteq> [] then []
            else [makeCommentBlock (basenameWithExt doc) (Some []) (Some (savedAuthorOf h))
                    (Some (today h)) ''block''
                  @ gameImpl])
         \<and> insertedTexts (events (interactiveInsertForCreatedDocument h (Some doc))) =
           (if trim (getText doc) \<noteq> [] then []
            else [makeCommentBlock (basenameWithExt doc) (js_or (descriptionBox h) (Some []))
                    (js_or (js_or (authorBox h) (Some (savedAuthorOf h)))
                       (Some (savedAuthorOf h)))
                    (Some (today h)) ''block''
                  @ gameImpl])
         \<and> insertedTexts (events (legacy_insertHeader h (Some doc))) =
           [legacy_makeCommentBlock (basenameWithExt doc) (descriptionBox h) (authorBox h)
              (Some (today h))
            @ gameImpl]
         \<and> prefix ''/**'' (makeCommentBlock f d a dt ''block'')
         \<and> prefix ''/**'' (legacy_makeCommentBlock f d a dt)
         \<and> prefix (''#include '' @ dq @ ''Game.hpp'' @ dq @ nl) gameImpl
         \<and> sublist (''Game::Game()'' @ nl @ ''{'' @ nl @ ''}'' @ nl) gameImpl
         \<and> sublist (''Game::~Game()'' @ nl @ ''{'' @ nl @ ''}'' @ nl) gameImpl"
proof -
  have i: "implBlock (basename doc) = gameImpl"
    using assms(1) implBlock_Game by simp
  have a: "insertedTexts (events (insertHeader h (Some doc))) =
           (if hasHeaderAtTop (getText doc) then []
            else [makeCommentBlock (basenameWithExt doc) (descriptionBox h)
                    (js_or (authorBox h) (Some (savedAuthorOf h))) (Some (today h)) ''block''
                  @ gameImpl])"
    unfolding insertHeader_inserted headerText_cpp [OF assms(2)] i by (rule refl)
  have b: "insertedTexts (events (autoInsertHeaderForDocument h (Some doc))) =
           (if trim (getText doc) \<noteq> [] then []
            else [makeCommentBlock (basenameWithExt doc) (Some []) (Some (savedAuthorOf h))
                    (Some (today h)) ''block''
                  @ gameImpl])"
    unfolding auto_inserted createdText_cpp [OF assms(2)] i by (rule refl)
  have c: "insertedTexts (events (interactiveInsertForCreatedDocument h (Some doc))) =
           (if trim (getText doc) \<noteq> [] then []
            else [makeCommentBlock (basenameWithExt doc) (js_or (descriptionBox h) (Some []))
                    (js_or (js_or (authorBox h) (Some (savedAuthorOf h)))
                       (Some (savedAuthorOf h)))
                    (Some (today h)) ''block''
                  @ gameImpl])"
    unfolding created_inserted createdText_cpp [OF assms(2)] i by (rule refl)
  have d: "insertedTexts (events (legacy_insertHeader h (Some doc))) =
           [legacy_makeCommentBlock (basenameWithExt doc) (descriptionBox h) (authorBox h)
              (Some (today h))
            @ gameImpl]"
    unfolding legacy_inserted legacyText_cpp [OF assms(2)] i assms(2)
    using supported_cpp by simp
  show ?thesis
    by (intro conjI a b c d block_starts legacy_starts gameImpl_parts)
qed

lemma game_fields:
  "getText (gameCpp t) = t" "basename (gameCpp t) = ''Game''"
  "extNoDot (fileExt (gameCpp t)) = ''cpp''" "basenameWithExt (gameCpp t) = ''Game.cpp''"
  by (simp_all add: gameCpp_def extNoDot_def)

lemma trim_Nil: "trim [] = []"
  by (simp add: trim_def)

theorem game_cpp_text_witness:
  "basename (gameCpp []) = ''Game''
   \<and> extNoDot (fileExt (gameCpp [])) = ''cpp''
   \<and> insertedTexts (events (autoInsertHeaderForDocument quietHost (Some (gameCpp [])))) =
       [makeCommentBlock ''Game.cpp'' (Some []) (Some []) (Some ''2025-10-22'') ''block''
        @ gameImpl]
   \<and> insertedTexts (events (legacy_insertHeader quietHost (Some (gameCpp [])))) =
       [legacy_makeCommentBlock ''Game.cpp'' None None (Some ''2025-10-22'') @ gameImpl]"
  using game_cpp_text [of "gameCpp []" quietHost, OF game_fields(2) game_fields(3)]
  by (simp add: game_fields quiet_fields quiet_saved trim_Nil)

text \<open>
  The claim as it was stated fails: the text generated for an empty \<open>Game.cpp\<close> begins with
  the comment block, not with the line \<open>#include "Game.hpp"\<close>.
\<close>

theorem game_cpp_counterexample:
  "\<not> list_all (prefix (''#include '' @ dq @ ''Game.hpp'' @ dq))
       (insertedTexts (events (autoInsertHeaderForDocument quietHost (Some (gameCpp [])))))"
proof -
  let ?c = "makeCommentBlock ''Game.cpp'' (Some []) (Some []) (Some ''2025-10-22'') ''block''"
  have t: "insertedTexts (events (autoInsertHeaderForDocument quietHost (Some (gameCpp []))))
      = [?c @ implBlock ''Game'']"
    by (simp add: auto_inserted createdText_cpp game_fields quiet_fields quiet_saved trim_Nil)
  obtain r where r: "?c = ''/**'' @ r"
    using block_starts [of "''Game.cpp''" "Some []" "Some []" "Some ''2025-10-22''"]
    by (auto simp: prefix_def)
  show ?thesis
    unfolding t r by (simp add: dq_def)
qed

section \<open>Python files\<close>

lemma headerText_py:
  "extNoDot (fileExt doc) = ''py'' \<Longrightarrow>
   headerText h doc =
     shebangLine @ makeCommentBlock (basenameWithExt doc) (descriptionBox h)
       (js_or (authorBox h) (Some (savedAuthorOf h))) (Some (today h)) ''hash''"
  by (simp add: headerText_def det_py)

lemma createdText_py:
  "extNoDot (fileExt doc) = ''py'' \<Longrightarrow>
   createdText h doc d a =
     shebangLine @ makeCommentBlock (basenameWithExt doc) d a (Some (today h)) ''hash''"
  by (simp add: createdText_def createdContent_def det_py)

lemma unsupported_py: "\<not> supported ''py''"
  by (simp add: supported_def)

text \<open>
  C9: for a file with the extension \<open>py\<close>, every text that an entry point generates is the
  line \<open>#!/usr/bin/env python3\<close> followed by the comment block in hash style, which begins
  with \<open># =\<close>; so the shebang line is the first line and stands before the border.
  \<open>insertHeader\<close> inserts the text unless the document has a header, the two entry points
  for created files unless the document is non-empty; \<open>insertHeader\<close> of \<open>src/extension.js\<close>
  generates no text for \<open>py\<close>.
\<close>

theorem python_shebang_first:
  assumes "extNoDot (fileExt doc) = ''py''"
  shows "insertedTexts (events (insertHeader h (Some doc))) =
           (if hasHeaderAtTop (getText doc) then []
            else [shebangLine
                  @ makeCommentBlock (basenameWithExt doc) (descriptionBox h)
                      (js_or (authorBox h) (Some (savedAuthorOf h))) (Some (today h)) ''hash''])
         \<and> insertedTexts (events (autoInsertHeaderForDocument h (Some doc))) =
           (if trim (getText doc) \<noteq> [] then []
            else [shebangLine
                  @ makeCommentBlock (basenameWithExt doc) (Some []) (Some (savedAuthorOf h))
                      (Some (today h)) ''hash''])
         \<and> insertedTexts (events (interactiveInsertForCreatedDocument h (Some doc))) =
           (if trim (getText doc) \<noteq> [] then []
            else [shebangLine
                  @ makeCommentBlock (basenameWithExt doc) (js_or (descriptionBox h) (Some []))
                      (js_or (js_or (authorBox h) (Some (savedAuthorOf h)))
                         (Some (savedAuthorOf h)))
                      (Some (today h)) ''hash''])
         \<and> insertedTexts (events (legacy_insertHeader h (Some doc))) = []
         \<and> shebangLine = ''#!/usr/bin/env python3'' @ nl
         \<and> prefix ''# ='' (makeCommentBlock f d a dt ''hash'')"
proof -
  have a: "insertedTexts (events (insertHeader h (Some doc))) =
           (if hasHeaderAtTop (getText doc) then []
            else [shebangLine
                  @ makeCommentBlock (basenameWithExt doc) (descriptionBox h)
                      (js_or (authorBox h) (Some (savedAuthorOf h))) (Some (today h)) ''hash''])"
    unfolding insertHeader_inserted headerText_py [OF assms] by (rule refl)
  have b: "insertedTexts (events (autoInsertHeaderForDocument h (Some doc))) =
           (if trim (getText doc) \<noteq> [] then []
            else [shebangLine
                  @ makeCommentBlock (basenameWithExt doc) (Some []) (Some (savedAuthorOf h))
                      (Some (today h)) ''hash''])"
    unfolding auto_inserted createdText_py [OF assms] by (rule refl)
  have c: "insertedTexts (events (interactiveInsertForCreatedDocument h (Some doc))) =
           (if trim (getText doc) \<noteq> [] then []
            else [shebangLine
                  @ makeCommentBlock (basenameWithExt doc) (js_or (descriptionBox h) (Some []))
                      (js_or (js_or (authorBox h) (Some (savedAuthorOf h)))
                         (Some (savedAuthorOf h)))
                      (Some (today h)) ''hash''])"
    unfolding created_inserted createdText_py [OF assms] by (rule refl)
  have d: "insertedTexts (events (legacy_insertHeader h (Some doc))) = []"
    unfolding legacy_inserted assms using unsupported_py by simp
  show ?thesis
    by (intro conjI a b c d shebangLine_def hash_starts)
qed

lemma tool_fields:
  "getText (toolPy t) = t" "extNoDot (fileExt (toolPy t)) = ''py''"
  "basenameWithExt (toolPy t) = ''tool.py''"
  by (simp_all add: toolPy_def extNoDot_def)

theorem python_shebang_first_witness:
  "extNoDot (fileExt (toolPy [])) = ''py''
   \<and> insertedTexts (events (interactiveInsertForCreatedDocument quietHost (Some (toolPy [])))) =
       [''#!/usr/bin/env python3'' @ nl
        @ makeCommentBlock ''tool.py'' (Some []) (Some []) (Some ''2025-10-22'') ''hash'']
   \<and> insertedTexts (events (insertHeader quietHost (Some (toolPy [])))) =
       [''#!/usr/bin/env python3'' @ nl
        @ makeCommentBlock ''tool.py'' None (Some []) (Some ''2025-10-22'') ''hash'']"
proof -
  have n: "\<not> hasHeaderAtTop []"
    by (simp add: hasHeaderAtTop_def)
  have j: "js_or None (Some []) = Some []" "js_or (Some []) (Some []) = Some []"
    by (simp_all add: js_or_def truthy_def)
  show ?thesis
    using python_shebang_first [of "toolPy []" quietHost, OF tool_fields(2)] n
    by (simp add: tool_fields quiet_fields quiet_saved trim_Nil j)
qed

section \<open>The stored author\<close>

lemma insertHeader_cfg:
  "configAfter (insertHeader h ed) = defaultAuthor h
   \<or> configAfter (insertHeader h ed) = snd (persistAuthor h)"
  by (cases ed) (simp_all add: insertHeader_some no_document)

lemma created_cfg:
  "configAfter (interactiveInsertForCreatedDocument h ed) = defaultAuthor h
   \<or> configAfter (interactiveInsertForCreatedDocument h ed) = snd (persistAuthor h)"
  by (cases ed) (simp_all add: created_some no_document)

lemma insertHeader_updates:
  "configUpdates (events (insertHeader h ed)) = []
   \<or> configUpdates (events (insertHeader h ed)) = configUpdates (fst (persistAuthor h))"
  by (cases ed)
    (simp_all add: insertHeader_some no_document configUpdates_append guardPrompts_quiet)

lemma created_updates:
  "configUpdates (events (interactiveInsertForCreatedDocument h ed)) = []
   \<or> configUpdates (events (interactiveInsertForCreatedDocument h ed))
       = configUpdates (fst (persistAuthor h))"
  by (cases ed) (simp_all add: created_some no_document configUpdates_append)

lemma saved_authorBox: "savedAuthorOf (h\<lparr>authorBox := x\<rparr>) = savedAuthorOf h"
  by (simp add: savedAuthorOf_def)

lemma cancelled_author:
  "\<not> truthy (authorBox h) \<Longrightarrow>
   js_or (authorBox h) (Some (savedAuthorOf h))
     = js_or (Some (savedAuthorOf h)) (Some (savedAuthorOf h))"
  by (simp add: js_or_def)

lemma headerText_cancelled:
  "\<not> truthy (authorBox h) \<Longrightarrow>
   headerText h doc = headerText (h\<lparr>authorBox := Some (savedAuthorOf h)\<rparr>) doc"
  by (simp add: headerText_def Let_def saved_authorBox cancelled_author)

lemma createdText_host: "createdText (h\<lparr>authorBox := x\<rparr>) doc d a = createdText h doc d a"
  by (simp add: createdText_def Let_def)

lemma insertHeader_cancelled:
  "\<not> truthy (authorBox h) \<Longrightarrow>
   insertedTexts (events (insertHeader h ed))
     = insertedTexts (events (insertHeader (h\<lparr>authorBox := Some (savedAuthorOf h)\<rparr>) ed))"
  by (cases ed) (simp_all add: insertHeader_inserted no_document headerText_cancelled)

lemma created_cancelled:
  "\<not> truthy (authorBox h) \<Longrightarrow>
   insertedTexts (events (interactiveInsertForCreatedDocument h ed))
     = insertedTexts (events (interactiveInsertForCreatedDocument
         (h\<lparr>authorBox := Some (savedAuthorOf h)\<rparr>) ed))"
  by (cases ed)
    (simp_all add: created_inserted no_document createdText_host saved_authorBox
      cancelled_author)

text \<open>
  C10: on the interactive paths the stored \<open>defaultAuthor\<close> changes only when the author box
  gave a non-empty string other than the stored value, and then it becomes that string;
  \<open>config.update\<close> is called under no other condition. When the author box is cancelled or
  left empty, the setting keeps its value, \<open>config.update\<close> is not called, and the generated
  text is the one that the default itself, typed into the box, would have given. The other two
  entry points never write the setting.
\<close>

theorem stored_author_update:
  "(configAfter (insertHeader h ed) \<noteq> defaultAuthor h \<longrightarrow>
      truthy (authorBox h) \<and> authorBox h \<noteq> defaultAuthor h
      \<and> configAfter (insertHeader h ed) = authorBox h)
   \<and> (configAfter (interactiveInsertForCreatedDocument h ed) \<noteq> defaultAuthor h \<longrightarrow>
      truthy (authorBox h) \<and> authorBox h \<noteq> defaultAuthor h
      \<and> configAfter (interactiveInsertForCreatedDocument h ed) = authorBox h)
   \<and> (configUpdates (events (insertHeader h ed)) \<noteq> [] \<longrightarrow>
      truthy (authorBox h) \<and> authorBox h \<noteq> defaultAuthor h
      \<and> configUpdates (events (insertHeader h ed)) = [str (authorBox h)])
   \<and> (configUpdates (events (interactiveInsertForCreatedDocument h ed)) \<noteq> [] \<longrightarrow>
      truthy (authorBox h) \<and> authorBox h \<noteq> defaultAuthor h
      \<and> configUpdates (events (interactiveInsertForCreatedDocument h ed)) = [str (authorBox h)])
   \<and> (\<not> truthy (authorBox h) \<longrightarrow>
      configAfter (insertHeader h ed) = defaultAuthor h
      \<and> configAfter (interactiveInsertForCreatedDocument h ed) = defaultAuthor h
      \<and> configUpdates (events (insertHeader h ed)) = []
      \<and> configUpdates (events (interactiveInsertForCreatedDocument h ed)) = []
      \<and> insertedTexts (events (insertHeader h ed))
          = insertedTexts (events (insertHeader (h\<lparr>authorBox := Some (savedAuthorOf h)\<rparr>) ed))
      \<and> insertedTexts (events (interactiveInsertForCreatedDocument h ed))
          = insertedTexts (events (interactiveInsertForCreatedDocument
              (h\<lparr>authorBox := Some (savedAuthorOf h)\<rparr>) ed)))
   \<and> configAfter (autoInsertHeaderForDocument h ed) = defaultAuthor h
   \<and> configAfter (legacy_insertHeader h ed) = defaultAuthor h"
proof -
  have f: "configAfter (autoInsertHeaderForDocument h ed) = defaultAuthor h"
    by (cases ed) (simp_all add: auto_some no_document)
  have g: "configAfter (legacy_insertHeader h ed) = defaultAuthor h"
    by (cases ed) (simp_all add: legacy_some no_document)
  have a: "configAfter (insertHeader h ed) \<noteq> defaultAuthor h \<longrightarrow>
      truthy (authorBox h) \<and> authorBox h \<noteq> defaultAuthor h
      \<and> configAfter (insertHeader h ed) = authorBox h"
    using insertHeader_cfg [of h ed] by (auto simp: persist_cfg split: if_splits)
  have b: "configAfter (interactiveInsertForCreatedDocument h ed) \<noteq> defaultAuthor h \<longrightarrow>
      truthy (authorBox h) \<and> authorBox h \<noteq> defaultAuthor h
      \<and> configAfter (interactiveInsertForCreatedDocument h ed) = authorBox h"
    using created_cfg [of h ed] by (auto simp: persist_cfg split: if_splits)
  have c: "configUpdates (events (insertHeader h ed)) \<noteq> [] \<longrightarrow>
      truthy (authorBox h) \<and> authorBox h \<noteq> defaultAuthor h
      \<and> configUpdates (events (insertHeader h ed)) = [str (authorBox h)]"
    using insertHeader_updates [of h ed] by (auto simp: persist_updates split: if_splits)
  have d: "configUpdates (events (interactiveInsertForCreatedDocument h ed)) \<noteq> [] \<longrightarrow>
      truthy (authorBox h) \<and> authorBox h \<noteq> defaultAuthor h
      \<and> configUpdates (events (interactiveInsertForCreatedDocument h ed)) = [str (authorBox h)]"
    using created_updates [of h ed] by (auto simp: persist_updates split: if_splits)
  have e: "\<not> truthy (authorBox h) \<longrightarrow>
      configAfter (insertHeader h ed) = defaultAuthor h
      \<and> configAfter (interactiveInsertForCreatedDocument h ed) = defaultAuthor h
      \<and> configUpdates (events (insertHeader h ed)) = []
      \<and> configUpdates (events (interactiveInsertForCreatedDocument h ed)) = []
      \<and> insertedTexts (events (insertHeader h ed))
          = insertedTexts (events (insertHeader (h\<lparr>authorBox := Some (savedAuthorOf h)\<rparr>) ed))
      \<and> insertedTexts (events (interactiveInsertForCreatedDocument h ed))
          = insertedTexts (events (interactiveInsertForCreatedDocument
              (h\<lparr>authorBox := Some (savedAuthorOf h)\<rparr>) ed))"
    using a b c d insertHeader_cancelled [of h ed] created_cancelled [of h ed] by blast
  show ?thesis
    by (intro conjI a b c d e f g)
qed

lemma typing_fields:
  "defaultAuthor typingHost = None" "authorBox typingHost = Some ''octocat''"
  "updateThrows typingHost = False"
  by (simp_all add: typingHost_def quietHost_def)

lemma typing_persist: "persistAuthor typingHost = ([ConfigUpdate ''octocat''], Some ''octocat'')"
  by (simp add: persistAuthor_def typing_fields truthy_def str_def)

theorem stored_author_update_witness:
  "configAfter (insertHeader typingHost (Some (keyboardC []))) = Some ''octocat''
   \<and> configAfter (interactiveInsertForCreatedDocument typingHost (Some (keyboardC [])))
       = Some ''octocat''
   \<and> defaultAuthor typingHost = None
   \<and> configUpdates (events (insertHeader typingHost (Some (keyboardC [])))) = [''octocat'']
   \<and> truthy (authorBox typingHost)
   \<and> \<not> truthy (authorBox quietHost)
   \<and> configAfter (insertHeader quietHost (Some (keyboardC []))) = None
   \<and> configUpdates (events (insertHeader quietHost (Some (keyboardC [])))) = []"
proof -
  have n: "\<not> hasHeaderAtTop []"
    by (simp add: hasHeaderAtTop_def)
  have t1: "configAfter (insertHeader typingHost (Some (keyboardC []))) = Some ''octocat''"
    using n by (simp add: insertHeader_some keyboard_fields typing_persist)
  have t2: "configAfter (interactiveInsertForCreatedDocument typingHost (Some (keyboardC [])))
      = Some ''octocat''"
    by (simp add: created_some keyboard_fields trim_Nil typing_persist)
  have t3: "configUpdates (events (insertHeader typingHost (Some (keyboardC [])))) \<noteq> []"
    using n by (simp add: insertHeader_some keyboard_fields typing_persist configUpdates_append)
  have q: "\<not> truthy (authorBox quietHost)"
    by (simp add: quiet_fields truthy_def)
  from stored_author_update [of typingHost "Some (keyboardC [])"] t1 t3
  have u: "truthy (authorBox typingHost)"
    and v: "configUpdates (events (insertHeader typingHost (Some (keyboardC []))))
      = [str (authorBox typingHost)]"
    by (simp_all add: typing_fields)
  from stored_author_update [of quietHost "Some (keyboardC [])"] q
  have w: "configAfter (insertHeader quietHost (Some (keyboardC []))) = defaultAuthor quietHost"
    and x: "configUpdates (events (insertHeader quietHost (Some (keyboardC [])))) = []"
    by blast+
  show ?thesis
    using t1 t2 u v w x q by (simp add: typing_fields quiet_fields str_def)
qed

end
